theory Spec2Isabelle
  imports Main "HOL-Library.FSet"
begin

section \<open>Distributed rate limiter (src/lib/ai/distributed-rate-limiter.ts)\<close>

text \<open>
  Provider names are the keys of \<open>PROVIDER_LIMITS\<close>. All numbers of the limiter are
  integers far below \<open>2^53\<close> (counters and millisecond time stamps), so the JavaScript
  numbers are modelled as \<open>int\<close>.
\<close>

datatype ProviderName = groq | pollinations | openrouter | default_provider

record limits =
  maxRPM :: int
  maxConcurrent :: int
  windowMs :: int

fun PROVIDER_LIMITS :: "ProviderName \<Rightarrow> limits" where
  "PROVIDER_LIMITS groq = \<lparr>maxRPM = 25, maxConcurrent = 3, windowMs = 60000\<rparr>"
| "PROVIDER_LIMITS pollinations = \<lparr>maxRPM = 50, maxConcurrent = 15, windowMs = 60000\<rparr>"
| "PROVIDER_LIMITS openrouter = \<lparr>maxRPM = 150, maxConcurrent = 10, windowMs = 60000\<rparr>"
| "PROVIDER_LIMITS default_provider = \<lparr>maxRPM = 30, maxConcurrent = 5, windowMs = 60000\<rparr>"

record RateLimitResult =
  allowed :: bool
  remaining :: int
  resetMs :: int

text \<open>
  The shared store holds, per provider, the three integer keys
  \<open>ratelimit:{provider}:count\<close>, \<open>...:window\<close> and \<open>...:concurrent\<close>; an absent key
  reads as \<open>null\<close> (\<open>None\<close>). Keys carry expirations in the store; an expiration is an
  event of the store, modelled below as the events \<open>KeyExpires\<close> and \<open>Expires\<close>.
\<close>

datatype key_kind = CountKey | WindowKey | ConcurrentKey

type_synonym redis = "ProviderName \<times> key_kind \<Rightarrow> int option"

text \<open>The in-memory fallback state of one instance: \<open>localCounts\<close> and \<open>localConcurrent\<close>.\<close>

record local_window =
  count :: int
  windowStart :: int

record limiter =
  localCounts :: "ProviderName \<Rightarrow> local_window option"
  localConcurrent :: "ProviderName \<Rightarrow> int option"

text \<open>\<open>x || 0\<close> on a value read from a map or from the store.\<close>

definition or_zero :: "int option \<Rightarrow> int" where
  "or_zero v = (case v of None \<Rightarrow> 0 | Some c \<Rightarrow> c)"

text \<open>\<open>redis.incr\<close>: an absent key counts as 0 before the increment.\<close>

definition redis_incr :: "redis \<Rightarrow> ProviderName \<times> key_kind \<Rightarrow> redis" where
  "redis_incr r k = r(k \<mapsto> or_zero (r k) + 1)"

definition redis_decr :: "redis \<Rightarrow> ProviderName \<times> key_kind \<Rightarrow> redis" where
  "redis_decr r k = r(k \<mapsto> or_zero (r k) - 1)"

definition redis_del :: "redis \<Rightarrow> ProviderName \<times> key_kind \<Rightarrow> redis" where
  "redis_del r k = r(k := None)"

text \<open>
  The commands sent to the shared store, each executed by the store in one step, with
  the reply the code reads: the value for \<open>GET\<close>, the new value for \<open>INCR\<close> and
  \<open>DECR\<close>. The expiration given to \<open>SET\<close> and \<open>EXPIRE\<close> does not change a value; the
  expiry itself is an event of the store.
\<close>

datatype command =
    GET "ProviderName \<times> key_kind"
  | SET "ProviderName \<times> key_kind" int
  | INCR "ProviderName \<times> key_kind"
  | DECR "ProviderName \<times> key_kind"
  | DEL "ProviderName \<times> key_kind"
  | EXPIRE "ProviderName \<times> key_kind" int

fun exec :: "redis \<Rightarrow> command \<Rightarrow> int option \<times> redis" where
  "exec r (GET k) = (r k, r)"
| "exec r (SET k v) = (None, r(k \<mapsto> v))"
| "exec r (INCR k) = (Some (or_zero (r k) + 1), redis_incr r k)"
| "exec r (DECR k) = (Some (or_zero (r k) - 1), redis_decr r k)"
| "exec r (DEL k) = (None, redis_del r k)"
| "exec r (EXPIRE k seconds) = (None, r)"

text \<open>
  An asynchronous function that talks to the store: it returns, or it sends a command
  and goes on with the reply. Every \<open>Await\<close> is a point where the function is suspended
  and where commands of other calls, from this instance or another, can reach the store
  first. The commands of one \<open>Promise.all\<close> are sent together; they are on different
  keys, and the model sends them in the order of the array.
\<close>

datatype 'a call = Return 'a | Await command "int option \<Rightarrow> 'a call"

text \<open>
  \<open>checkRedisLimit\<close>. The parameter \<open>now\<close> of the source is shadowed and never read;
  the function reads the clock itself: \<open>t1\<close> is the reading of \<open>Date.now()\<close> in the
  expiry test, \<open>t2\<close> the reading made in the branch taken (the new window start, or
  the \<open>resetMs\<close> computation). \<open>!windowStart\<close> holds for \<open>null\<close> and for \<open>0\<close>.
\<close>

definition checkRedisLimit ::
  "ProviderName \<Rightarrow> limits \<Rightarrow> int \<Rightarrow> int \<Rightarrow> RateLimitResult call" where
  "checkRedisLimit provider lim t1 t2 =
    (let countKey = (provider, CountKey);
         windowKey = (provider, WindowKey);
         concurrentKey = (provider, ConcurrentKey)
     in
     Await (GET windowKey) (\<lambda>windowStart.
     Await (GET countKey) (\<lambda>currentCount.
     Await (GET concurrentKey) (\<lambda>concurrent.
       let currentConcurrent = or_zero concurrent;
           fresh =
             Await (SET windowKey t2) (\<lambda>_.
             Await (SET countKey 1) (\<lambda>_.
               Return \<lparr>allowed = True, remaining = maxRPM lim - 1, resetMs = windowMs lim\<rparr>))
       in case windowStart of
            None \<Rightarrow> fresh
          | Some ws \<Rightarrow>
              if ws = 0 \<or> t1 - ws \<ge> windowMs lim then fresh
              else
                let cnt = or_zero currentCount in
                if cnt \<ge> maxRPM lim then
                  Return \<lparr>allowed = False, remaining = 0, resetMs = windowMs lim - (t2 - ws)\<rparr>
                else if currentConcurrent \<ge> maxConcurrent lim then
                  Return \<lparr>allowed = False, remaining = maxRPM lim - cnt, resetMs = 1000\<rparr>
                else
                  Await (INCR countKey) (\<lambda>_.
                  Await (INCR concurrentKey) (\<lambda>_.
                  Await (EXPIRE concurrentKey 300) (\<lambda>_.
                    Return \<lparr>allowed = True, remaining = maxRPM lim - cnt - 1,
                            resetMs = windowMs lim - (t2 - ws)\<rparr>)))))))"

text \<open>\<open>checkLocalLimit\<close>: the per-instance fallback, with the budgets divided.\<close>

definition checkLocalLimit ::
  "limiter \<Rightarrow> ProviderName \<Rightarrow> limits \<Rightarrow> int \<Rightarrow> RateLimitResult \<times> limiter" where
  "checkLocalLimit s provider lim now =
    (let concurrent = or_zero (localConcurrent s provider);
         fresh = (\<lparr>allowed = True, remaining = maxRPM lim - 1, resetMs = windowMs lim\<rparr>,
                  s\<lparr>localCounts := (localCounts s)(provider \<mapsto> \<lparr>count = 1, windowStart = now\<rparr>)\<rparr>)
     in case localCounts s provider of
          None \<Rightarrow> fresh
        | Some state \<Rightarrow>
            if now - windowStart state \<ge> windowMs lim then fresh
            else
              let instanceAdjustedLimit = max 5 (maxRPM lim div 5) in
              if count state \<ge> instanceAdjustedLimit then
                (\<lparr>allowed = False, remaining = 0,
                  resetMs = windowMs lim - (now - windowStart state)\<rparr>, s)
              else
                let instanceAdjustedConcurrent = max 2 (maxConcurrent lim div 3) in
                if concurrent \<ge> instanceAdjustedConcurrent then
                  (\<lparr>allowed = False, remaining = instanceAdjustedLimit - count state,
                    resetMs = 500\<rparr>, s)
                else
                  (\<lparr>allowed = True, remaining = instanceAdjustedLimit - (count state + 1),
                    resetMs = windowMs lim - (now - windowStart state)\<rparr>,
                   s\<lparr>localCounts := (localCounts s)(provider \<mapsto> state\<lparr>count := count state + 1\<rparr>),
                     localConcurrent := (localConcurrent s)(provider \<mapsto> concurrent + 1)\<rparr>))"

text \<open>
  The shared-store part of \<open>releaseSlot\<close>: read the counter, then decrement it when
  the value read is positive, or delete it when the value read is present and not
  positive.
\<close>

definition releaseSlot_redis :: "ProviderName \<Rightarrow> unit call" where
  "releaseSlot_redis provider =
    (let concurrentKey = (provider, ConcurrentKey) in
     Await (GET concurrentKey) (\<lambda>current.
       case current of
         None \<Rightarrow> Return ()
       | Some c \<Rightarrow>
           if c \<noteq> 0 \<and> c > 0 then Await (DECR concurrentKey) (\<lambda>_. Return ())
           else if c \<le> 0 then Await (DEL concurrentKey) (\<lambda>_. Return ())
           else Return ()))"

text \<open>
  Two ways to run calls against the store. \<open>run_alone\<close> runs one call to its end with
  no other command in between. \<open>interleave\<close> runs several calls that overlap: the
  schedule says which call has its next command executed (\<open>Runs i\<close>, for the call at
  position \<open>i\<close>) and when a key expires. \<open>returned\<close> reads the result of a call that
  has come to its end.
\<close>

primrec run_alone :: "'a call \<Rightarrow> redis \<Rightarrow> 'a \<times> redis" where
  "run_alone (Return x) r = (x, r)"
| "run_alone (Await c k) r = (case exec r c of (reply, r') \<Rightarrow> run_alone (k reply) r')"

fun advance :: "'a call \<Rightarrow> redis \<Rightarrow> 'a call \<times> redis" where
  "advance (Return x) r = (Return x, r)"
| "advance (Await c k) r = (case exec r c of (reply, r') \<Rightarrow> (k reply, r'))"

datatype event = Runs nat | Expires "ProviderName \<times> key_kind"

fun interleave :: "redis \<Rightarrow> 'a call list \<Rightarrow> event list \<Rightarrow> redis \<times> 'a call list" where
  "interleave r calls [] = (r, calls)"
| "interleave r calls (Runs i # es) =
     (if i < length calls
      then (case advance (calls ! i) r of (c', r') \<Rightarrow> interleave r' (calls[i := c']) es)
      else interleave r calls es)"
| "interleave r calls (Expires k # es) = interleave (redis_del r k) calls es"

fun returned :: "'a call \<Rightarrow> 'a option" where
  "returned (Return x) = Some x"
| "returned (Await c k) = None"

text \<open>
  The local part of \<open>releaseSlot\<close>, which runs after the shared-store part without
  suspension. The trailing \<open>processQueue()\<close> returns at once: nothing in the class
  ever adds to \<open>queue\<close>.
\<close>

definition releaseSlot_local :: "limiter \<Rightarrow> ProviderName \<Rightarrow> limiter" where
  "releaseSlot_local s provider =
    (let concurrent = or_zero (localConcurrent s provider) in
     if concurrent > 0
     then s\<lparr>localConcurrent := (localConcurrent s)(provider \<mapsto> concurrent - 1)\<rparr>
     else s)"

text \<open>
  The whole state seen by one instance: the shared store and its own fallback maps.
  \<open>checkLimit reachable w provider now t1 t2\<close> is one call of \<open>checkLimit\<close> that does
  not overlap with any other: on the shared-store path (the store is reachable:
  \<open>getRedis()\<close> returns a client and its commands succeed) it is \<open>checkRedisLimit\<close> run
  alone, otherwise it is \<open>checkLocalLimit\<close>, which is synchronous. The three clock
  readings are \<open>now\<close> (made in \<open>checkLimit\<close>), \<open>t1\<close> and \<open>t2\<close> (made in
  \<open>checkRedisLimit\<close>). \<open>releaseSlot reachable w provider\<close> is likewise one call of
  \<open>releaseSlot\<close> that does not overlap with any other. Calls that overlap are run with
  \<open>interleave\<close>.
\<close>

record world =
  shared :: redis
  inst :: limiter

definition checkLimit ::
  "bool \<Rightarrow> world \<Rightarrow> ProviderName \<Rightarrow> int \<Rightarrow> int \<Rightarrow> int \<Rightarrow> RateLimitResult \<times> world" where
  "checkLimit reachable w provider now t1 t2 =
    (let lim = PROVIDER_LIMITS provider in
     if reachable then
       (case run_alone (checkRedisLimit provider lim t1 t2) (shared w) of
          (res, r') \<Rightarrow> (res, w\<lparr>shared := r'\<rparr>))
     else
       (case checkLocalLimit (inst w) provider lim now of
          (res, s') \<Rightarrow> (res, w\<lparr>inst := s'\<rparr>)))"

definition releaseSlot :: "bool \<Rightarrow> world \<Rightarrow> ProviderName \<Rightarrow> world" where
  "releaseSlot reachable w provider =
    \<lparr>shared = (if reachable then snd (run_alone (releaseSlot_redis provider) (shared w))
               else shared w),
     inst = releaseSlot_local (inst w) provider\<rparr>"

text \<open>
  Operations on the limiter that run one after the other, none overlapping with
  another, and the expiry of a key of the shared store between two of them.
\<close>

datatype op =
    CheckLimit bool ProviderName int int int
  | ReleaseSlot bool ProviderName
  | KeyExpires ProviderName key_kind

fun step :: "world \<Rightarrow> op \<Rightarrow> RateLimitResult option \<times> world" where
  "step w (CheckLimit reachable p now t1 t2) =
     (case checkLimit reachable w p now t1 t2 of (res, w') \<Rightarrow> (Some res, w'))"
| "step w (ReleaseSlot reachable p) = (None, releaseSlot reachable w p)"
| "step w (KeyExpires p k) = (None, w\<lparr>shared := redis_del (shared w) (p, k)\<rparr>)"

fun run :: "world \<Rightarrow> op list \<Rightarrow> RateLimitResult option list \<times> world" where
  "run w [] = ([], w)"
| "run w (x # xs) =
     (case step w x of (res, w') \<Rightarrow>
        (case run w' xs of (rs, w'') \<Rightarrow> (res # rs, w'')))"

definition initial_world :: world where
  "initial_world = \<lparr>shared = (\<lambda>_. None),
                    inst = \<lparr>localCounts = (\<lambda>_. None), localConcurrent = (\<lambda>_. None)\<rparr>\<rparr>"

text \<open>
  Helpers for statements about traces. \<open>store_check_on p x\<close>: \<open>x\<close> is a \<open>checkLimit\<close>
  on provider \<open>p\<close> that takes the shared-store path. \<open>admitted_calls\<close> counts those
  that were admitted. \<open>within_window p ws x\<close>: \<open>x\<close> does not end the window started
  at \<open>ws\<close> on the store: a store-path check on \<open>p\<close> reads the clock before the window
  has elapsed, and neither the window key nor the count key of \<open>p\<close> expires.
  \<open>window_closed\<close> is the test of the first branch of \<open>checkRedisLimit\<close>,
  \<open>local_window_closed\<close> that of \<open>checkLocalLimit\<close>.
\<close>

fun store_check_on :: "ProviderName \<Rightarrow> op \<Rightarrow> bool" where
  "store_check_on p (CheckLimit reachable q now t1 t2) = (reachable \<and> q = p)"
| "store_check_on p (ReleaseSlot reachable q) = False"
| "store_check_on p (KeyExpires q k) = False"

fun is_admitted :: "RateLimitResult option \<Rightarrow> bool" where
  "is_admitted None = False"
| "is_admitted (Some res) = allowed res"

fun admitted_calls :: "ProviderName \<Rightarrow> op list \<Rightarrow> RateLimitResult option list \<Rightarrow> nat" where
  "admitted_calls p (x # xs) (r # rs) =
     (if store_check_on p x \<and> is_admitted r then 1 else 0) + admitted_calls p xs rs"
| "admitted_calls p xs rs = 0"

fun within_window :: "ProviderName \<Rightarrow> int \<Rightarrow> op \<Rightarrow> bool" where
  "within_window p ws (CheckLimit reachable q now t1 t2) =
     (reachable \<and> q = p \<longrightarrow> t1 - ws < windowMs (PROVIDER_LIMITS p))"
| "within_window p ws (ReleaseSlot reachable q) = True"
| "within_window p ws (KeyExpires q k) = (q = p \<longrightarrow> k = ConcurrentKey)"

definition window_closed :: "redis \<Rightarrow> ProviderName \<Rightarrow> int \<Rightarrow> bool" where
  "window_closed r p t1 =
     (case r (p, WindowKey) of
        None \<Rightarrow> True
      | Some ws \<Rightarrow> ws = 0 \<or> t1 - ws \<ge> windowMs (PROVIDER_LIMITS p))"

definition local_window_closed :: "limiter \<Rightarrow> ProviderName \<Rightarrow> int \<Rightarrow> bool" where
  "local_window_closed s p now =
     (case localCounts s p of
        None \<Rightarrow> True
      | Some state \<Rightarrow> now - windowStart state \<ge> windowMs (PROVIDER_LIMITS p))"

fun is_release :: "op \<Rightarrow> bool" where
  "is_release (ReleaseSlot reachable q) = True"
| "is_release (CheckLimit reachable q now t1 t2) = False"
| "is_release (KeyExpires q k) = False"


text \<open>
  \<open>nonneg_counters w p\<close>: both concurrency counters of provider \<open>p\<close>, the shared one and
  the one of this instance, read as a number that is not negative.
\<close>

definition nonneg_counters :: "world \<Rightarrow> ProviderName \<Rightarrow> bool" where
  "nonneg_counters w p = (0 \<le> or_zero (shared w (p, ConcurrentKey)) \<and> 0 \<le> or_zero (localConcurrent (inst w) p))"


text \<open>
  A trace that crosses window boundaries with no release: the call that opens the first
  window, then as many calls as the concurrency budget of the path admits, then
  \<open>maxConcurrent\<close> calls that each arrive after the previous window has elapsed.
\<close>

definition concurrency_budget :: "ProviderName \<Rightarrow> bool \<Rightarrow> int" where
  "concurrency_budget p reachable =
     (if reachable then maxConcurrent (PROVIDER_LIMITS p)
      else max 2 (maxConcurrent (PROVIDER_LIMITS p) div 3))"

fun openings :: "bool \<Rightarrow> ProviderName \<Rightarrow> nat \<Rightarrow> op list" where
  "openings reachable p 0 = []"
| "openings reachable p (Suc n) =
     openings reachable p n @
     [CheckLimit reachable p (1 + int (Suc n) * windowMs (PROVIDER_LIMITS p))
        (1 + int (Suc n) * windowMs (PROVIDER_LIMITS p))
        (1 + int (Suc n) * windowMs (PROVIDER_LIMITS p))]"

definition boundary_trace :: "ProviderName \<Rightarrow> bool \<Rightarrow> op list" where
  "boundary_trace p reachable =
     CheckLimit reachable p 1 1 1 #
     replicate (nat (concurrency_budget p reachable)) (CheckLimit reachable p 2 2 2) @
     openings reachable p (nat (maxConcurrent (PROVIDER_LIMITS p)))"




section \<open>Persistent response cache (src/lib/cache/persistent-cache.ts)\<close>

text \<open>
  Strings are lists of 8-bit characters, so the model covers prompts in ASCII and
  Latin-1. \<open>is_word\<close> is the class \<open>\w\<close> of the regular expressions (letters, digits,
  underscore), \<open>is_space\<close> the class \<open>\s\<close> restricted to these characters (tab, line
  feed, vertical tab, form feed, carriage return, space, no-break space).
\<close>

definition is_word :: "char \<Rightarrow> bool" where
  "is_word c =
     (let n = (of_char c :: nat) in
      (48 \<le> n \<and> n \<le> 57) \<or> (65 \<le> n \<and> n \<le> 90) \<or> n = 95 \<or> (97 \<le> n \<and> n \<le> 122))"

definition is_space :: "char \<Rightarrow> bool" where
  "is_space c = (let n = (of_char c :: nat) in (9 \<le> n \<and> n \<le> 13) \<or> n = 32 \<or> n = 160)"

text \<open>\<open>toLowerCase\<close> on one character: \<open>A\<close>-\<open>Z\<close> and the Latin-1 capitals.\<close>

definition toLowerCase_char :: "char \<Rightarrow> char" where
  "toLowerCase_char c =
     (let n = (of_char c :: nat) in
      if (65 \<le> n \<and> n \<le> 90) \<or> (192 \<le> n \<and> n \<le> 222 \<and> n \<noteq> 215)
      then char_of (n + 32) else c)"

text \<open>\<open>replace(/\s+/g, ' ')\<close>: every maximal run of white space becomes one space.
  The flag says that the previous character was white space.\<close>

fun collapse_from :: "bool \<Rightarrow> string \<Rightarrow> string" where
  "collapse_from prev [] = []"
| "collapse_from prev (c # cs) =
     (if is_space c
      then (if prev then collapse_from True cs else CHR '' '' # collapse_from True cs)
      else c # collapse_from False cs)"

definition trim :: "string \<Rightarrow> string" where
  "trim s = rev (dropWhile is_space (rev (dropWhile is_space s)))"

definition normalizePrompt :: "string \<Rightarrow> string" where
  "normalizePrompt text =
     take 200
       (trim
         (collapse_from False
           (map (\<lambda>c. if is_word c \<or> is_space c then c else CHR '' '')
             (map toLowerCase_char text))))"

text \<open>\<open>split(' ')\<close>: the pieces between the separators, empty pieces included.\<close>

fun split_on :: "char \<Rightarrow> string \<Rightarrow> string list" where
  "split_on sep [] = [[]]"
| "split_on sep (c # cs) =
     (if c = sep then [] # split_on sep cs
      else (case split_on sep cs of
              [] \<Rightarrow> [[c]]
            | w # ws \<Rightarrow> (c # w) # ws))"

definition stopWords :: "string list" where
  "stopWords =
     [''a'', ''an'', ''the'', ''is'', ''are'', ''was'', ''were'', ''be'', ''been'',
      ''being'', ''have'', ''has'', ''had'', ''do'', ''does'', ''did'', ''will'',
      ''would'', ''could'', ''should'', ''may'', ''might'', ''must'', ''shall'',
      ''can'', ''dengan'', ''dan'', ''yang'', ''untuk'', ''di'', ''ke'', ''dari'',
      ''saya'', ''mau'', ''buatkan'', ''tolong'', ''buat'', ''bikin'']"

definition tokenize :: "string \<Rightarrow> string fset" where
  "tokenize text =
     fset_of_list
       (filter (\<lambda>word. length word > 2 \<and> word \<notin> set stopWords)
         (split_on CHR '' '' (normalizePrompt text)))"

text \<open>
  \<open>jaccardSimilarity\<close>. A JavaScript \<open>Set\<close> is finite, hence \<open>fset\<close>. The quotient of
  the two sizes is modelled as a rational number (the source computes the nearest
  double).
\<close>

definition jaccardSimilarity :: "'a fset \<Rightarrow> 'a fset \<Rightarrow> rat" where
  "jaccardSimilarity setA setB =
     (if fcard setA = 0 \<or> fcard setB = 0 then 0
      else
        let intersection = fcard (ffilter (\<lambda>x. x |\<in>| setB) setA);
            union = fcard (setA |\<union>| setB)
        in of_nat intersection / of_nat union)"

text \<open>
  A row of \<open>job_queue\<close>, with the columns the query reads. Time stamps are
  milliseconds since the epoch; \<open>None\<close> is SQL \<open>NULL\<close>.
\<close>

record job =
  job_id :: string
  status :: string
  input_message :: "string option"
  output_content :: "string option"
  job_files :: "(string \<times> string) list option"
  completed_at :: "int option"

record CachedResponse =
  jobId :: string
  outputContent :: string
  cached_files :: "(string \<times> string) list option"
  completedAt :: int
  similarity :: rat

text \<open>
  The query of \<open>findCachedResponse\<close>: completed jobs with \<open>completed_at\<close> at or after
  the cutoff and a non-null \<open>output_content\<close>, most recently completed first, at most
  100 rows. A \<open>NULL\<close> time stamp fails the comparison. The order among rows with equal
  time stamps is left open by the store; the model keeps the order of the table.
\<close>

definition in_window :: "int \<Rightarrow> job \<Rightarrow> bool" where
  "in_window cutoff j =
     (status j = ''completed'' \<and>
      (case completed_at j of None \<Rightarrow> False | Some t \<Rightarrow> t \<ge> cutoff) \<and>
      output_content j \<noteq> None)"

definition recency :: "job \<Rightarrow> int" where
  "recency j = (case completed_at j of None \<Rightarrow> 0 | Some t \<Rightarrow> - t)"

definition query_jobs :: "job list \<Rightarrow> int \<Rightarrow> job list" where
  "query_jobs table cutoff = take 100 (sort_key recency (filter (in_window cutoff) table))"

text \<open>\<open>!job.input_message\<close>: the text is \<open>null\<close> or empty.\<close>

definition has_text :: "job \<Rightarrow> bool" where
  "has_text j = (case input_message j of None \<Rightarrow> False | Some m \<Rightarrow> m \<noteq> [])"

definition job_similarity :: "string \<Rightarrow> job \<Rightarrow> rat" where
  "job_similarity prompt j =
     jaccardSimilarity (tokenize prompt)
       (tokenize (case input_message j of None \<Rightarrow> [] | Some m \<Rightarrow> m))"

definition response_of :: "string \<Rightarrow> job \<Rightarrow> CachedResponse" where
  "response_of prompt j =
     \<lparr>jobId = job_id j,
      outputContent = (case output_content j of None \<Rightarrow> [] | Some c \<Rightarrow> c),
      cached_files = job_files j,
      completedAt = (case completed_at j of None \<Rightarrow> 0 | Some t \<Rightarrow> t),
      similarity = job_similarity prompt j\<rparr>"

text \<open>The loop over the rows, with its two variables \<open>bestMatch\<close> and \<open>bestScore\<close>.\<close>

fun scan_jobs ::
  "string \<Rightarrow> rat \<Rightarrow> job list \<Rightarrow> CachedResponse option \<Rightarrow> rat \<Rightarrow> CachedResponse option" where
  "scan_jobs prompt threshold [] bestMatch bestScore = bestMatch"
| "scan_jobs prompt threshold (j # js) bestMatch bestScore =
     (if \<not> has_text j then scan_jobs prompt threshold js bestMatch bestScore
      else
        let sim = job_similarity prompt j in
        if sim \<ge> threshold \<and> sim > bestScore
        then scan_jobs prompt threshold js (Some (response_of prompt j)) sim
        else scan_jobs prompt threshold js bestMatch bestScore)"

text \<open>
  \<open>findCachedResponse\<close>. The table is \<open>None\<close> when the store answers with an error (or
  the call throws): the function then returns \<open>null\<close>. \<open>now\<close> is the clock reading of
  \<open>new Date()\<close>. The cutoff is computed by \<open>setHours(getHours() - maxAgeHours)\<close>; for a
  whole number of hours on a clock without daylight saving (the call sites pass 72, the
  servers run in UTC) this is \<open>now\<close> minus \<open>maxAgeHours\<close> hours, and that is what the
  model takes.
\<close>

definition findCachedResponse ::
  "string \<Rightarrow> job list option \<Rightarrow> int \<Rightarrow> int \<Rightarrow> rat \<Rightarrow> CachedResponse option" where
  "findCachedResponse prompt store now maxAgeHours threshold =
     (let cutoffDate = now - maxAgeHours * 3600000 in
      case store of
        None \<Rightarrow> None
      | Some table \<Rightarrow>
          let jobs = query_jobs table cutoffDate in
          if jobs = [] then None
          else scan_jobs prompt threshold jobs None 0)"

text \<open>
  For statements about the scan: a job is \<open>acceptable\<close> when it has a request text and
  its similarity is at least the threshold and positive (\<open>bestScore\<close> starts at 0 and
  must be exceeded). \<open>best_inv\<close> relates the two loop variables.
\<close>

definition acceptable :: "string \<Rightarrow> rat \<Rightarrow> job \<Rightarrow> bool" where
  "acceptable prompt threshold j =
     (has_text j \<and> job_similarity prompt j \<ge> threshold \<and> job_similarity prompt j > 0)"

definition best_inv :: "rat \<Rightarrow> CachedResponse option \<Rightarrow> rat \<Rightarrow> bool" where
  "best_inv threshold bm bs =
     (case bm of None \<Rightarrow> bs = 0 | Some r \<Rightarrow> similarity r = bs \<and> bs > 0 \<and> bs \<ge> threshold)"

section \<open>Multi-agent orchestrator (src/lib/orchestrator/multi-agent.ts)\<close>

text \<open>
  The data of the orchestrator. \<open>SubTask.id\<close> is \<open>task_id\<close> and \<open>SubTask.agent\<close> is
  \<open>task_agent\<close> here; the fields of \<open>TaskPlan\<close> carry the prefix \<open>plan_\<close> where the name
  is used again in \<open>OrchestratorResult\<close>, whose fields carry the prefix \<open>o_\<close>;
  \<open>AgentResult.output\<close> is \<open>agent_output\<close>. A
  \<open>Record<string, string>\<close> is an association list in the order of \<open>Object.entries\<close>
  (insertion order; paths are not integer-like keys, nor names of members of
  \<open>Object.prototype\<close>). The optional \<open>files\<close> of an \<open>AgentResult\<close> is an \<open>option\<close>.
\<close>

type_synonym file_map = "(string \<times> string) list"

record SubTask =
  task_id :: string
  task_agent :: string
  description :: string
  dependencies :: "string list"
  priority :: string

record TaskPlan =
  plan_projectName :: string
  plan_summary :: string
  subTasks :: "SubTask list"
  parallelGroups :: "string list list"

record AgentResult =
  taskId :: string
  agent :: string
  success :: bool
  agent_output :: string
  files :: "file_map option"
  duration :: int

record OrchestratorResult =
  o_success :: bool
  o_projectName :: string
  o_summary :: string
  o_files :: file_map
  o_agentResults :: "AgentResult list"

text \<open>
  A value caught by a \<open>catch\<close>: an \<open>Error\<close> with its message, or anything else.
  \<open>message_of\<close> is \<open>error instanceof Error ? error.message : 'Unknown error'\<close>.
  A promise raced against a timer resolves, rejects, or is still pending when the
  timer fires.
\<close>

datatype thrown = Error string | NonError

fun message_of :: "thrown \<Rightarrow> string" where
  "message_of (Error m) = m"
| "message_of NonError = ''Unknown error''"

datatype 'a settled = Resolves 'a | Rejects thrown | Pending

text \<open>
  What the collaborators of \<open>executeAgent\<close> do for one task, given the results of the
  earlier groups (which go into the prompt): the quota or the cost budget is exceeded
  (with the numbers as printed in the message), a call made before the \<open>try\<close> rejects, the
  generation call inside the \<open>try\<close> fails or returns its text (with the elapsed
  milliseconds), or nothing settles within the time limit of the caller.
\<close>

datatype agent_run =
    QuotaExceeded string string
  | BudgetExceeded string string
  | PreflightRejects thrown
  | CallFails thrown int
  | CallReturns string int
  | Hangs

type_synonym agents = "SubTask \<Rightarrow> AgentResult list \<Rightarrow> agent_run"

text \<open>\<open>executeAgent\<close>; \<open>extractFiles\<close> is passed in as the function \<open>extract\<close>.\<close>

definition executeAgent ::
  "agents \<Rightarrow> (string \<Rightarrow> file_map) \<Rightarrow> SubTask \<Rightarrow> AgentResult list \<Rightarrow> AgentResult settled" where
  "executeAgent ex extract task previousResults =
     (case ex task previousResults of
        QuotaExceeded lim used \<Rightarrow>
          Rejects (Error (''Quota exceeded for agent '' @ task_agent task @ ''. Limit: '' @ lim
                          @ '', Used: '' @ used))
      | BudgetExceeded spent lim \<Rightarrow>
          Rejects (Error (''Daily cost budget exceeded for '' @ task_agent task @ ''. Spent: $''
                          @ spent @ '', Limit: $'' @ lim))
      | PreflightRejects e \<Rightarrow> Rejects e
      | CallFails e d \<Rightarrow>
          Resolves \<lparr>taskId = task_id task, agent = task_agent task, success = False,
                    agent_output = message_of e, files = None, duration = d\<rparr>
      | CallReturns text d \<Rightarrow>
          Resolves \<lparr>taskId = task_id task, agent = task_agent task, success = True,
                    agent_output = text, files = Some (extract text), duration = d\<rparr>
      | Hangs \<Rightarrow> Pending)"

text \<open>
  The callback mapped over the tasks of a group in \<open>executeParallel\<close>: the race of
  \<open>executeAgent\<close> against the 60 second timer, and the \<open>catch\<close> that turns a rejection
  or the timeout into a failed result.
\<close>

definition AGENT_TIMEOUT :: int where
  "AGENT_TIMEOUT = 60000"

definition failed_result :: "SubTask \<Rightarrow> thrown \<Rightarrow> AgentResult" where
  "failed_result task e =
     \<lparr>taskId = task_id task, agent = task_agent task, success = False,
      agent_output = ''Error: '' @ message_of e, files = Some [], duration = AGENT_TIMEOUT\<rparr>"

definition run_task ::
  "agents \<Rightarrow> (string \<Rightarrow> file_map) \<Rightarrow> AgentResult list \<Rightarrow> SubTask \<Rightarrow> AgentResult" where
  "run_task ex extract allResults task =
     (case executeAgent ex extract task allResults of
        Resolves r \<Rightarrow> r
      | Rejects e \<Rightarrow> failed_result task e
      | Pending \<Rightarrow>
          failed_result task (Error (''Agent '' @ task_agent task @ '' timeout after 60s'')))"

text \<open>
  The progress callback is optional; a call of it either returns or rejects. Only the
  percentage is modelled, not the message. \<open>notify\<close> is \<open>if (onProgress) await
  onProgress(percent, ...)\<close>.
\<close>

type_synonym progress = "(int \<Rightarrow> thrown option) option"

definition notify :: "progress \<Rightarrow> int \<Rightarrow> thrown option" where
  "notify onProgress percent = (case onProgress of None \<Rightarrow> None | Some cb \<Rightarrow> cb percent)"

text \<open>
  \<open>executeParallel\<close>: the groups one after the other, the tasks of a group together.
  \<open>Promise.all\<close> returns the results in the order of \<open>tasksToRun\<close>, whatever the order
  in which they settle. Every task of the group sees \<open>allResults\<close> as it was when the
  group started. \<open>i\<close> counts the groups done, \<open>n\<close> is \<open>plan.parallelGroups.length\<close>;
  the percentage \<open>Math.round(30 + i * (40 / n))\<close> is computed on rational numbers.
\<close>

fun executeParallel_from ::
  "agents \<Rightarrow> (string \<Rightarrow> file_map) \<Rightarrow> progress \<Rightarrow> SubTask list \<Rightarrow> nat \<Rightarrow> nat \<Rightarrow>
   string list list \<Rightarrow> AgentResult list \<Rightarrow> thrown + AgentResult list" where
  "executeParallel_from ex extract onProgress tasks n i [] allResults = Inr allResults"
| "executeParallel_from ex extract onProgress tasks n i (grp # rest) allResults =
     (case notify onProgress (round (30 + rat_of_nat i * (40 / rat_of_nat n))) of
        Some e \<Rightarrow> Inl e
      | None \<Rightarrow>
          let tasksToRun = filter (\<lambda>t. task_id t \<in> set grp) tasks;
              groupResults = map (run_task ex extract allResults) tasksToRun
          in executeParallel_from ex extract onProgress tasks n (Suc i) rest
               (allResults @ groupResults))"

definition executeParallel ::
  "agents \<Rightarrow> (string \<Rightarrow> file_map) \<Rightarrow> progress \<Rightarrow> TaskPlan \<Rightarrow> thrown + AgentResult list" where
  "executeParallel ex extract onProgress plan =
     executeParallel_from ex extract onProgress (subTasks plan)
       (length (parallelGroups plan)) 0 (parallelGroups plan) []"

text \<open>
  The invariant of a plan (section 3 of the specification): task ids are distinct, every
  id of a group is the id of a task, every task is in exactly one group, and the
  dependencies of a task are in strictly earlier groups.
\<close>

fun group_index :: "string list list \<Rightarrow> string \<Rightarrow> nat option" where
  "group_index [] x = None"
| "group_index (g # gs) x =
     (if x \<in> set g then Some 0
      else (case group_index gs x of None \<Rightarrow> None | Some k \<Rightarrow> Some (Suc k)))"

definition earlier_group :: "string list list \<Rightarrow> string \<Rightarrow> string \<Rightarrow> bool" where
  "earlier_group groups d x =
     (case (group_index groups d, group_index groups x) of
        (Some a, Some b) \<Rightarrow> a < b
      | _ \<Rightarrow> False)"

definition plan_invariant :: "TaskPlan \<Rightarrow> bool" where
  "plan_invariant plan =
     (distinct (map task_id (subTasks plan)) \<and>
      list_all (\<lambda>g. list_all (\<lambda>x. x \<in> set (map task_id (subTasks plan))) g)
        (parallelGroups plan) \<and>
      list_all (\<lambda>t. length (filter (\<lambda>g. task_id t \<in> set g) (parallelGroups plan)) = 1)
        (subTasks plan) \<and>
      list_all (\<lambda>t. list_all (\<lambda>d. earlier_group (parallelGroups plan) d (task_id t))
                       (dependencies t))
        (subTasks plan))"

text \<open>The ids of the tasks run for one group, in the order of \<open>tasksToRun\<close>.\<close>

definition group_task_ids :: "SubTask list \<Rightarrow> string list \<Rightarrow> string list" where
  "group_task_ids tasks grp = map task_id (filter (\<lambda>t. task_id t \<in> set grp) tasks)"

text \<open>
  \<open>quiet onProgress\<close>: the progress callback is absent or never rejects.
  \<open>results_from\<close> is the loop of \<open>executeParallel\<close> without the progress calls.
\<close>

definition quiet :: "progress \<Rightarrow> bool" where
  "quiet onProgress = (\<forall>percent. notify onProgress percent = None)"

fun results_from ::
  "agents \<Rightarrow> (string \<Rightarrow> file_map) \<Rightarrow> SubTask list \<Rightarrow> string list list \<Rightarrow>
   AgentResult list \<Rightarrow> AgentResult list" where
  "results_from ex extract tasks [] allResults = allResults"
| "results_from ex extract tasks (grp # rest) allResults =
     results_from ex extract tasks rest
       (allResults @ map (run_task ex extract allResults) (filter (\<lambda>t. task_id t \<in> set grp) tasks))"

text \<open>
  A plan of three tasks in two groups, and collaborators under which the first task of
  the second group never settles while every other task returns.
\<close>

definition demo_plan :: TaskPlan where
  "demo_plan =
     \<lparr>plan_projectName = ''todo'', plan_summary = ''todo app'',
      subTasks =
        [\<lparr>task_id = ''design-1'', task_agent = ''design'', description = ''layout'',
          dependencies = [], priority = ''high''\<rparr>,
         \<lparr>task_id = ''frontend-1'', task_agent = ''frontend'', description = ''list view'',
          dependencies = [''design-1''], priority = ''medium''\<rparr>,
         \<lparr>task_id = ''frontend-2'', task_agent = ''frontend'', description = ''form'',
          dependencies = [''design-1''], priority = ''medium''\<rparr>],
      parallelGroups = [[''design-1''], [''frontend-1'', ''frontend-2'']]\<rparr>"

definition demo_agents :: agents where
  "demo_agents task previousResults =
     (if task_id task = ''frontend-1'' then Hangs
      else CallReturns (''done '' @ task_id task) 1200)"

text \<open>
  A plan that satisfies the invariant and lists a task before the task it depends on.
\<close>

definition reversed_plan :: TaskPlan where
  "reversed_plan =
     \<lparr>plan_projectName = ''todo'', plan_summary = ''todo app'',
      subTasks =
        [\<lparr>task_id = ''frontend-1'', task_agent = ''frontend'', description = ''list view'',
          dependencies = [''design-1''], priority = ''medium''\<rparr>,
         \<lparr>task_id = ''design-1'', task_agent = ''design'', description = ''layout'',
          dependencies = [], priority = ''high''\<rparr>],
      parallelGroups = [[''design-1''], [''frontend-1'']]\<rparr>"

text \<open>
  \<open>filename.includes(fp)\<close> (here \<open>includes_str\<close>) and the deny-list of \<open>merge\<close>. \<open>toLowerCase\<close> of a string is
  taken character by character.
\<close>

fun starts_with :: "string \<Rightarrow> string \<Rightarrow> bool" where
  "starts_with s [] = True"
| "starts_with [] (c # cs) = False"
| "starts_with (x # xs) (c # cs) = (x = c \<and> starts_with xs cs)"

fun includes_str :: "string \<Rightarrow> string \<Rightarrow> bool" where
  "includes_str [] sub = (sub = [])"
| "includes_str (x # xs) sub = (starts_with (x # xs) sub \<or> includes_str xs sub)"

definition forbiddenPaths :: "string list" where
  "forbiddenPaths =
     [''prisma/'', ''server/'', ''api/'', ''.env'', ''docker'', ''/migrations/'',
      ''schema.prisma'']"

definition forbidden :: "string \<Rightarrow> bool" where
  "forbidden filename =
     list_ex (\<lambda>fp. includes_str (map toLowerCase_char filename) fp) forbiddenPaths"

text \<open>
  \<open>allFiles[filename] = content\<close> on an object: an existing key keeps its place, a new
  key goes to the end.
\<close>

fun assign :: "file_map \<Rightarrow> string \<Rightarrow> string \<Rightarrow> file_map" where
  "assign [] k v = [(k, v)]"
| "assign (p # rest) k v = (if fst p = k then (k, v) # rest else p # assign rest k v)"

record conflict =
  filename :: string
  sources :: "AgentResult list"

text \<open>
  The conflict bookkeeping of \<open>merge\<close>: \<open>conflicts.find(c => c.filename === filename)\<close>,
  then a push to the sources of the entry found, or a new entry at the end.
\<close>

fun push_source :: "conflict list \<Rightarrow> string \<Rightarrow> AgentResult \<Rightarrow> conflict list" where
  "push_source [] f r = [\<lparr>filename = f, sources = [r]\<rparr>]"
| "push_source (c # cs) f r =
     (if filename c = f then c\<lparr>sources := sources c @ [r]\<rparr> # cs
      else c # push_source cs f r)"

text \<open>
  The body of the inner loop of \<open>merge\<close> for one entry of \<open>result.files\<close>.
  \<open>allFiles[filename] && allFiles[filename] !== content\<close> holds when the path is
  present with a non-empty content that differs from the new one.
\<close>

definition merge_entry ::
  "AgentResult \<Rightarrow> file_map \<times> conflict list \<Rightarrow> string \<times> string \<Rightarrow> file_map \<times> conflict list" where
  "merge_entry result acc entry =
     (case (acc, entry) of
        ((allFiles, conflicts), (fname, content)) \<Rightarrow>
          if forbidden fname then (allFiles, conflicts)
          else
            (assign allFiles fname content,
             (case map_of allFiles fname of
                None \<Rightarrow> conflicts
              | Some existing \<Rightarrow>
                  if existing \<noteq> [] \<and> existing \<noteq> content
                  then push_source conflicts fname result
                  else conflicts)))"

definition merge_result ::
  "file_map \<times> conflict list \<Rightarrow> AgentResult \<Rightarrow> file_map \<times> conflict list" where
  "merge_result acc result =
     (case files result of
        None \<Rightarrow> acc
      | Some fs \<Rightarrow> foldl (merge_entry result) acc fs)"

definition collect :: "AgentResult list \<Rightarrow> file_map \<times> conflict list" where
  "collect results = foldl merge_result ([], []) results"

text \<open>
  The reply of the merge specialist, as \<open>merge\<close> tells the cases apart: the call rejects,
  the reply holds no \<open>{...}\<close>, \<open>JSON.parse\<close> throws, the parsed object has no \<open>files\<close>, or
  it has. The specialist is a function of what the prompt is built from: the conflicts
  and the union so far.
\<close>

datatype resolution =
    CallRejects thrown
  | NoJsonObject
  | ParseFails
  | NoFilesField
  | Resolved file_map

type_synonym specialist = "conflict list \<Rightarrow> file_map \<Rightarrow> resolution"

definition nl :: char where
  "nl = CHR 0x0A"

text \<open>\<open>toUpperCase\<close>, on ASCII letters; other characters are left as they are.\<close>

definition toUpperCase_char :: "char \<Rightarrow> char" where
  "toUpperCase_char c =
     (let n = (of_char c :: nat) in if 97 \<le> n \<and> n \<le> 122 then char_of (n - 32) else c)"

fun join :: "string \<Rightarrow> string list \<Rightarrow> string" where
  "join sep [] = []"
| "join sep [x] = x"
| "join sep (x # y # ys) = x @ sep @ join sep (y # ys)"

definition combinedOutput :: "AgentResult list \<Rightarrow> string" where
  "combinedOutput results =
     join ([nl, nl] @ ''---'' @ [nl, nl])
       (map (\<lambda>r. ''## '' @ map toUpperCase_char (agent r) @ [nl, nl] @ agent_output r)
          (filter success results))"

text \<open>
  \<open>merge\<close>. The source returns the files; the model also returns the conflicts recorded
  and the number of calls made to the specialist, so that statements can speak of them.
\<close>

record merge_outcome =
  merged_files :: file_map
  recorded_conflicts :: "conflict list"
  specialist_calls :: nat

definition merge :: "bool \<Rightarrow> specialist \<Rightarrow> AgentResult list \<Rightarrow> merge_outcome" where
  "merge enableLogging ask results =
     (case collect results of
        (allFiles, conflicts) \<Rightarrow>
          let resolving = (conflicts \<noteq> [] \<and> enableLogging);
              resolved =
                (if resolving then
                   (case ask conflicts allFiles of
                      Resolved fs \<Rightarrow> foldl (\<lambda>acc kv. assign acc (fst kv) (snd kv)) allFiles fs
                    | _ \<Rightarrow> allFiles)
                 else allFiles);
              final = (if resolved = [] then [(''output.md'', combinedOutput results)]
                       else resolved)
          in \<lparr>merged_files = final, recorded_conflicts = conflicts,
              specialist_calls = (if resolving then 1 else 0)\<rparr>)"









text \<open>
  Results for the examples: three tasks that write one path, the second with a content
  that differs from the first and the third repeating the second; and two tasks that
  write two paths with differing contents, the first task leaving one of them empty.
\<close>

definition three_versions :: "AgentResult list" where
  "three_versions =
     [\<lparr>taskId = ''frontend-1'', agent = ''frontend'', success = True, agent_output = ''a'',
       files = Some [(''src/App.tsx'', ''one'')], duration = 10\<rparr>,
      \<lparr>taskId = ''frontend-2'', agent = ''frontend'', success = True, agent_output = ''b'',
       files = Some [(''src/App.tsx'', ''two'')], duration = 10\<rparr>,
      \<lparr>taskId = ''backend-1'', agent = ''backend'', success = True, agent_output = ''c'',
       files = Some [(''src/App.tsx'', ''two'')], duration = 10\<rparr>]"


text \<open>
  \<open>verifyChain\<close>. The collaborators of the verifier: whether the 45 second timer fires
  before the verification is done, the reply of the review call for a result and its
  task, and the outcome of \<open>verifyAndFix\<close> on the reviewed files (the files it returns and
  whether they validated, or a rejection).
\<close>

datatype heal = HealRejects thrown | Healed file_map bool

record verifier =
  verifyTimeout :: bool
  aiVerify :: "AgentResult \<Rightarrow> SubTask \<Rightarrow> thrown + string"
  selfHeal :: "file_map \<Rightarrow> heal"

definition regenerate :: "file_map \<Rightarrow> string" where
  "regenerate fixedFiles =
     join [nl, nl] (map (\<lambda>kv. ''// '' @ fst kv @ [nl] @ snd kv) fixedFiles)"

definition verify_one ::
  "verifier \<Rightarrow> (string \<Rightarrow> file_map) \<Rightarrow> TaskPlan \<Rightarrow> AgentResult \<Rightarrow> AgentResult" where
  "verify_one v extract plan result =
     (case find (\<lambda>t. task_id t = taskId result) (subTasks plan) of
        None \<Rightarrow> result
      | Some task \<Rightarrow>
          (case aiVerify v result task of
             Inl e \<Rightarrow> result
           | Inr verifiedOutput \<Rightarrow>
               let verifiedFiles = extract verifiedOutput;
                   tagged = agent result @ ''+verified''
               in if agent result \<in> set [''frontend'', ''backend''] \<and> verifiedFiles \<noteq> []
                  then (case selfHeal v verifiedFiles of
                          HealRejects e \<Rightarrow>
                            result\<lparr>agent := tagged, agent_output := verifiedOutput,
                                   files := Some verifiedFiles\<rparr>
                        | Healed fixedFiles verified \<Rightarrow>
                            if verified
                            then result\<lparr>agent := tagged, agent_output := regenerate fixedFiles,
                                        files := Some fixedFiles\<rparr>
                            else result\<lparr>agent := tagged, agent_output := verifiedOutput,
                                        files := Some fixedFiles\<rparr>)
                  else result\<lparr>agent := tagged, agent_output := verifiedOutput,
                              files := Some verifiedFiles\<rparr>))"

definition doVerifyChain ::
  "verifier \<Rightarrow> (string \<Rightarrow> file_map) \<Rightarrow> TaskPlan \<Rightarrow> AgentResult list \<Rightarrow> AgentResult list" where
  "doVerifyChain v extract plan results =
     (let tasksToVerify =
            filter (\<lambda>r. agent r \<in> set [''frontend'', ''backend'', ''database'', ''design''])
              results;
          skippedTasks = filter (\<lambda>r. r \<notin> set tasksToVerify) results
      in skippedTasks @ map (verify_one v extract plan) tasksToVerify)"

definition verifyChain ::
  "verifier \<Rightarrow> (string \<Rightarrow> file_map) \<Rightarrow> TaskPlan \<Rightarrow> AgentResult list \<Rightarrow> AgentResult list" where
  "verifyChain v extract plan results =
     (if verifyTimeout v then results else doVerifyChain v extract plan results)"

text \<open>
  The junk file filter of \<open>orchestrate\<close>. \<open>last_segment\<close> is
  \<open>path.split('/').pop() || path\<close>; \<open>junk_name prefix\<close> is the test of
  \<open>/^file\d+\.json$/i\<close> and \<open>/^data\d+\.json$/i\<close>.
\<close>

definition last_segment :: "string \<Rightarrow> string" where
  "last_segment path =
     (let seg = last (split_on CHR ''/'' path) in if seg = [] then path else seg)"

definition is_digit :: "char \<Rightarrow> bool" where
  "is_digit c = (let n = (of_char c :: nat) in 48 \<le> n \<and> n \<le> 57)"

definition junk_name :: "string \<Rightarrow> string \<Rightarrow> bool" where
  "junk_name prefix fname =
     (let s = map toLowerCase_char fname;
          digits = takeWhile is_digit (drop (length prefix) s)
      in starts_with s prefix \<and> digits \<noteq> [] \<and>
         drop (length prefix + length digits) s = ''.json'')"

definition cleanFiles :: "file_map \<Rightarrow> file_map" where
  "cleanFiles fs =
     filter (\<lambda>kv.
        let fname = last_segment (fst kv); trimmed = trim (snd kv)
        in \<not> junk_name ''file'' fname \<and> \<not> junk_name ''data'' fname \<and>
           trimmed \<notin> set [''...'', ''// TODO'', ''/* TODO */''] \<and>
           trimmed \<noteq> [])
       fs"

text \<open>
  An entry of the in-process caches, with the fields \<open>orchestrate\<close> reads.
  \<open>or_default\<close> is \<open>x || d\<close> on an optional string.
\<close>

record cached =
  c_projectName :: "string option"
  c_summary :: "string option"
  c_files :: "file_map option"

definition or_default :: "string option \<Rightarrow> string \<Rightarrow> string" where
  "or_default x d = (case x of None \<Rightarrow> d | Some s \<Rightarrow> if s = [] then d else s)"

text \<open>
  The collaborators of one \<open>orchestrate\<close> call, each given by what it does in this call.
  \<open>jobTable\<close> and \<open>clock\<close> feed \<open>findCachedResponse\<close> (a failure of \<open>createClient\<close> is
  a table that cannot be read). \<open>responseCacheFind\<close> and \<open>semanticCacheFind\<close> are the
  lookups of the two in-process caches; \<open>combinedContext\<close> is what the retrieval and the
  auto-agent stages leave (both are wrapped in their own \<open>try\<close> and never throw
  outwards); \<open>aiDecompose\<close> is the decomposition call as a function of the request
  handed to \<open>decompose\<close>; \<open>safeParseJSON\<close> is the sanitising parser; \<open>finalVerifier\<close>
  returns the greeting and the files; \<open>responseCacheSet\<close> is the write to the cache.
  The trace logger catches its own errors and is left out, as are the detached
  fire-and-forget writes and \<open>totalDuration\<close>.
\<close>

record collaborators =
  enableLogging :: bool
  jobTable :: "job list option"
  clock :: int
  responseCacheFind :: "thrown + cached option"
  semanticCacheFind :: "thrown + cached option"
  trackSessionStart :: "thrown option"
  onProgress :: progress
  combinedContext :: string
  aiDecompose :: "string \<Rightarrow> thrown + string"
  safeParseJSON :: "string \<Rightarrow> TaskPlan option"
  agentRuns :: agents
  extractFiles :: "string \<Rightarrow> file_map"
  verifierEnv :: verifier
  mergeSpecialist :: specialist
  finalVerifier :: "file_map \<Rightarrow> thrown + string \<times> file_map"
  responseCacheSet :: "thrown option"

text \<open>
  \<open>decompose\<close>. \<open>jsonMatch\<close> is \<open>match(/\{[\s\S]*\}/)\<close>: from the first opening brace to
  the last closing brace after it.
\<close>

definition jsonMatch :: "string \<Rightarrow> string option" where
  "jsonMatch s =
     (let fromBrace = dropWhile (\<lambda>c. c \<noteq> CHR ''{'') s;
          m = rev (dropWhile (\<lambda>c. c \<noteq> CHR ''}'') (rev fromBrace))
      in if m = [] then None else Some m)"

definition decompose :: "collaborators \<Rightarrow> string \<Rightarrow> thrown + TaskPlan" where
  "decompose env userRequest =
     (case aiDecompose env userRequest of
        Inl e \<Rightarrow> Inl e
      | Inr reply \<Rightarrow>
          (case jsonMatch reply of
             None \<Rightarrow> Inl (Error ''Failed to parse task decomposition'')
           | Some m \<Rightarrow>
               (case safeParseJSON env m of
                  None \<Rightarrow> Inl (Error ''Failed to parse task decomposition JSON'')
                | Some plan \<Rightarrow> Inr plan)))"

text \<open>
  The persistent cache stage of \<open>orchestrate\<close>, inside its own \<open>try\<close>: a hit that has
  files returns at once, unless the progress callback rejects, which the inner \<open>catch\<close>
  swallows.
\<close>

definition persistent_stage :: "collaborators \<Rightarrow> string \<Rightarrow> OrchestratorResult option" where
  "persistent_stage env userRequest =
     (case findCachedResponse userRequest (jobTable env) (clock env) 72 (7 / 10) of
        None \<Rightarrow> None
      | Some persistentResult \<Rightarrow>
          (case cached_files persistentResult of
             None \<Rightarrow> None
           | Some fs \<Rightarrow>
               (case notify (onProgress env) 100 of
                  Some e \<Rightarrow> None
                | None \<Rightarrow>
                    Some \<lparr>o_success = True, o_projectName = ''cached-project'',
                          o_summary = or_default (Some (outputContent persistentResult))
                                        ''Cached response from previous request'',
                          o_files = fs, o_agentResults = []\<rparr>)))"

text \<open>The stages after decomposition, up to the result that is returned.\<close>

definition run_plan :: "collaborators \<Rightarrow> TaskPlan \<Rightarrow> thrown + OrchestratorResult" where
  "run_plan env plan =
     (case notify (onProgress env) 30 of
        Some e \<Rightarrow> Inl e
      | None \<Rightarrow>
     (case executeParallel (agentRuns env) (extractFiles env) (onProgress env) plan of
        Inl e \<Rightarrow> Inl e
      | Inr workerResults \<Rightarrow>
     (case notify (onProgress env) 70 of
        Some e \<Rightarrow> Inl e
      | None \<Rightarrow>
     (let verifiedResults = verifyChain (verifierEnv env) (extractFiles env) plan workerResults in
      case notify (onProgress env) 90 of
        Some e \<Rightarrow> Inl e
      | None \<Rightarrow>
     (let merged = merged_files (merge (enableLogging env) (mergeSpecialist env) verifiedResults);
          cleanedFiles = cleanFiles merged
      in case finalVerifier env cleanedFiles of
           Inl e \<Rightarrow> Inl e
         | Inr (greeting, verifiedFiles) \<Rightarrow>
             (case responseCacheSet env of
                Some e \<Rightarrow> Inl e
              | None \<Rightarrow>
                  Inr \<lparr>o_success = True, o_projectName = plan_projectName plan,
                       o_summary = greeting, o_files = verifiedFiles,
                       o_agentResults = verifiedResults\<rparr>))))))"

text \<open>
  \<open>decompose_input\<close> is the request handed to \<open>decompose\<close>: the user's request,
  followed by the combined context when there is one.
\<close>

definition decompose_input :: "collaborators \<Rightarrow> string \<Rightarrow> string" where
  "decompose_input env userRequest =
     (if combinedContext env \<noteq> []
      then userRequest @ [nl, nl] @ ''[ENHANCED CONTEXT]:'' @ [nl] @ combinedContext env
      else userRequest)"

text \<open>The body of the outer \<open>try\<close> of \<open>orchestrate\<close>.\<close>

definition orchestrate_try :: "collaborators \<Rightarrow> string \<Rightarrow> thrown + OrchestratorResult" where
  "orchestrate_try env userRequest =
     (case persistent_stage env userRequest of
        Some r \<Rightarrow> Inr r
      | None \<Rightarrow>
     (case responseCacheFind env of
        Inl e \<Rightarrow> Inl e
      | Inr (Some c) \<Rightarrow>
          (case notify (onProgress env) 100 of
             Some e \<Rightarrow> Inl e
           | None \<Rightarrow>
               Inr \<lparr>o_success = True,
                    o_projectName = or_default (c_projectName c) ''cached-project'',
                    o_summary = or_default (c_summary c) ''Cached response'',
                    o_files = (case c_files c of None \<Rightarrow> [] | Some fs \<Rightarrow> fs),
                    o_agentResults = []\<rparr>)
      | Inr None \<Rightarrow>
     (case semanticCacheFind env of
        Inl e \<Rightarrow> Inl e
      | Inr (Some c) \<Rightarrow>
          Inr \<lparr>o_success = True,
               o_projectName = or_default (c_projectName c) ''cached-project'',
               o_summary = or_default (c_summary c) ''Cached response (semantic match)'',
               o_files = (case c_files c of None \<Rightarrow> [] | Some fs \<Rightarrow> fs),
               o_agentResults = []\<rparr>
      | Inr None \<Rightarrow>
     (case trackSessionStart env of
        Some e \<Rightarrow> Inl e
      | None \<Rightarrow>
     (case notify (onProgress env) 15 of
        Some e \<Rightarrow> Inl e
      | None \<Rightarrow>
     (case decompose env (decompose_input env userRequest) of
        Inl e \<Rightarrow> Inl e
      | Inr plan \<Rightarrow> run_plan env plan))))))"

text \<open>\<open>orchestrate\<close>: the outer \<open>catch\<close> turns whatever was thrown into the error result.\<close>

definition error_result :: "thrown \<Rightarrow> OrchestratorResult" where
  "error_result e =
     \<lparr>o_success = False, o_projectName = ''error'', o_summary = message_of e,
      o_files = [], o_agentResults = []\<rparr>"

definition orchestrate :: "collaborators \<Rightarrow> string \<Rightarrow> OrchestratorResult" where
  "orchestrate env userRequest =
     (case orchestrate_try env userRequest of
        Inl e \<Rightarrow> error_result e
      | Inr r \<Rightarrow> r)"

text \<open>
  \<open>caches_miss\<close>: the three cache stages find nothing and session tracking does not
  throw, so that the call reaches the decomposition.
\<close>

definition caches_miss :: "collaborators \<Rightarrow> string \<Rightarrow> bool" where
  "caches_miss env userRequest =
     (persistent_stage env userRequest = None \<and>
      responseCacheFind env = Inr None \<and>
      semanticCacheFind env = Inr None \<and>
      trackSessionStart env = None)"

text \<open>
  Collaborators for the examples. In \<open>demo_env\<close> the caches are empty, the decomposer
  returns \<open>demo_plan\<close>, the agents are \<open>demo_agents\<close>, the review call fails and the
  final verifier returns the files it is given. \<open>no_plan_env\<close> differs in the reply of
  the decomposer, which holds no JSON object; \<open>all_tasks_fail_env\<close> in the agents, whose
  generation calls all fail; \<open>progress_rejects_env\<close> in the agents, which all succeed,
  and in the progress callback, which rejects at 90 percent.
\<close>

definition demo_env :: collaborators where
  "demo_env =
     \<lparr>enableLogging = True, jobTable = Some [], clock = 300000000,
      responseCacheFind = Inr None, semanticCacheFind = Inr None,
      trackSessionStart = None, onProgress = None, combinedContext = [],
      aiDecompose = (\<lambda>request. Inr ''Plan: {...}''),
      safeParseJSON = (\<lambda>m. Some demo_plan),
      agentRuns = demo_agents, extractFiles = (\<lambda>text. []),
      verifierEnv = \<lparr>verifyTimeout = False,
                     aiVerify = (\<lambda>r t. Inl (Error ''review unavailable'')),
                     selfHeal = (\<lambda>fs. HealRejects NonError)\<rparr>,
      mergeSpecialist = (\<lambda>cs fs. NoJsonObject),
      finalVerifier = (\<lambda>fs. Inr (''Here is your project'', fs)),
      responseCacheSet = None\<rparr>"

definition no_plan_env :: collaborators where
  "no_plan_env = demo_env\<lparr>aiDecompose := (\<lambda>request. Inr ''I cannot plan this'')\<rparr>"

definition all_tasks_fail_env :: collaborators where
  "all_tasks_fail_env =
     demo_env\<lparr>agentRuns := (\<lambda>task previousResults. CallFails (Error ''provider unavailable'') 40)\<rparr>"

definition progress_rejects_env :: collaborators where
  "progress_rejects_env =
     demo_env\<lparr>agentRuns := (\<lambda>task previousResults. CallReturns ''done'' 40),
              onProgress := Some (\<lambda>percent. if percent = 90
                                             then Some (Error ''job store unavailable'')
                                             else None)\<rparr>"

section \<open>Theorems: rate limiter\<close>

text \<open>What a call that runs alone does to the store.\<close>

lemma checkRedisLimit_alone:
  "run_alone (checkRedisLimit provider lim t1 t2) r =
    (let countKey = (provider, CountKey);
         windowKey = (provider, WindowKey);
         concurrentKey = (provider, ConcurrentKey);
         currentConcurrent = or_zero (r concurrentKey);
         fresh = (\<lparr>allowed = True, remaining = maxRPM lim - 1, resetMs = windowMs lim\<rparr>,
                  r(windowKey \<mapsto> t2, countKey \<mapsto> 1))
     in case r windowKey of
          None \<Rightarrow> fresh
        | Some ws \<Rightarrow>
            if ws = 0 \<or> t1 - ws \<ge> windowMs lim then fresh
            else
              let cnt = or_zero (r countKey) in
              if cnt \<ge> maxRPM lim then
                (\<lparr>allowed = False, remaining = 0, resetMs = windowMs lim - (t2 - ws)\<rparr>, r)
              else if currentConcurrent \<ge> maxConcurrent lim then
                (\<lparr>allowed = False, remaining = maxRPM lim - cnt, resetMs = 1000\<rparr>, r)
              else
                (\<lparr>allowed = True, remaining = maxRPM lim - cnt - 1,
                  resetMs = windowMs lim - (t2 - ws)\<rparr>,
                 redis_incr (redis_incr r countKey) concurrentKey))"
  by (cases "r (provider, WindowKey)") (simp_all add: checkRedisLimit_def Let_def)

lemma releaseSlot_redis_alone:
  "snd (run_alone (releaseSlot_redis provider) r) =
     (case r (provider, ConcurrentKey) of
        None \<Rightarrow> r
      | Some current \<Rightarrow>
          if current \<noteq> 0 \<and> current > 0 then redis_decr r (provider, ConcurrentKey)
          else if current \<le> 0 then redis_del r (provider, ConcurrentKey)
          else r)"
  by (cases "r (provider, ConcurrentKey)") (simp_all add: releaseSlot_redis_def Let_def)

lemma store_frame_step:
  "within_window p ws x \<Longrightarrow> step w x = (r, w') \<Longrightarrow>
   shared w (p, WindowKey) = Some ws \<Longrightarrow> ws \<noteq> 0 \<Longrightarrow>
   shared w' (p, WindowKey) = Some ws \<and>
   or_zero (shared w' (p, CountKey)) =
     or_zero (shared w (p, CountKey)) + (if store_check_on p x \<and> is_admitted r then 1 else 0)"
  apply (cases x)
  apply (auto simp: checkLimit_def checkRedisLimit_alone checkLocalLimit_def Let_def releaseSlot_def releaseSlot_redis_alone releaseSlot_local_def
      redis_incr_def redis_decr_def redis_del_def or_zero_def
      split: option.splits if_splits prod.splits)
  done

lemma store_frame_run:
  "\<forall>x\<in>set ops. within_window p ws x \<Longrightarrow> run w ops = (rs, w') \<Longrightarrow>
   shared w (p, WindowKey) = Some ws \<Longrightarrow> ws \<noteq> 0 \<Longrightarrow>
   shared w' (p, WindowKey) = Some ws \<and>
   or_zero (shared w' (p, CountKey)) =
     or_zero (shared w (p, CountKey)) + int (admitted_calls p ops rs)"
proof (induction ops arbitrary: w rs)
  case Nil
  then show ?case by simp
next
  case (Cons x xs)
  obtain r wm where st: "step w x = (r, wm)" by (cases "step w x")
  obtain rs' wf where rn: "run wm xs = (rs', wf)" by (cases "run wm xs")
  from Cons.prems(2) st rn have eq: "rs = r # rs'" "w' = wf" by auto
  from rn eq have rn': "run wm xs = (rs', w')" by simp
  from Cons.prems(1) have wx: "within_window p ws x" and wxs: "\<forall>y\<in>set xs. within_window p ws y" by auto
  from store_frame_step[OF wx st Cons.prems(3) Cons.prems(4)]
  have m: "shared wm (p, WindowKey) = Some ws"
    "or_zero (shared wm (p, CountKey)) =
     or_zero (shared w (p, CountKey)) + (if store_check_on p x \<and> is_admitted r then 1 else 0)" by auto
  from Cons.IH[OF wxs rn' m(1) Cons.prems(4)] m(2) eq show ?case by auto
qed

text \<open>
  Calls that do not overlap. Let a call open a window at \<open>ws\<close> on the store (clock
  readings after 1970, so \<open>ws \<noteq> 0\<close>) and let operations follow one after the other
  that stay within this window. If \<open>maxRPM\<close> store-path calls on \<open>p\<close> were admitted, the
  opening one included, then the next call inside the window is denied with
  \<open>remaining = 0\<close> and \<open>resetMs = windowMs - (t2 - ws)\<close>, and the next call at least
  \<open>windowMs\<close> after \<open>ws\<close> is admitted, starts a window at its own reading \<open>t2\<close> and sets
  the count to 1.
\<close>

lemma sequential_rpm_window:
  assumes closed: "window_closed (shared w) p s1"
    and opened: "checkLimit True w p now0 s1 ws = (res0, w0)"
    and nz: "ws \<noteq> 0"
    and inwin: "\<forall>x\<in>set ops. within_window p ws x"
    and ran: "run w0 ops = (rs, w1)"
    and adm: "1 + int (admitted_calls p ops rs) = maxRPM (PROVIDER_LIMITS p)"
  shows "allowed res0 \<and>
         (t1 - ws < windowMs (PROVIDER_LIMITS p) \<longrightarrow>
            fst (checkLimit True w1 p now t1 t2) =
              \<lparr>allowed = False, remaining = 0,
                resetMs = windowMs (PROVIDER_LIMITS p) - (t2 - ws)\<rparr>) \<and>
         (t1 - ws \<ge> windowMs (PROVIDER_LIMITS p) \<longrightarrow>
            allowed (fst (checkLimit True w1 p now t1 t2)) \<and>
            shared (snd (checkLimit True w1 p now t1 t2)) (p, WindowKey) = Some t2 \<and>
            shared (snd (checkLimit True w1 p now t1 t2)) (p, CountKey) = Some 1)"
proof -
  from closed opened have o: "allowed res0" "shared w0 (p, WindowKey) = Some ws"
    "shared w0 (p, CountKey) = Some 1"
    by (auto simp: window_closed_def checkLimit_def checkRedisLimit_alone Let_def
        split: option.splits if_splits)
  from store_frame_run[OF inwin ran o(2) nz] o(3) adm
  have f: "shared w1 (p, WindowKey) = Some ws"
    "or_zero (shared w1 (p, CountKey)) = maxRPM (PROVIDER_LIMITS p)"
    by (auto simp: or_zero_def)
  have d: "t1 - ws < windowMs (PROVIDER_LIMITS p) \<Longrightarrow>
            fst (checkLimit True w1 p now t1 t2) =
              \<lparr>allowed = False, remaining = 0,
                resetMs = windowMs (PROVIDER_LIMITS p) - (t2 - ws)\<rparr>"
    using f nz by (simp add: checkLimit_def checkRedisLimit_alone Let_def)
  have e: "t1 - ws \<ge> windowMs (PROVIDER_LIMITS p) \<Longrightarrow>
            allowed (fst (checkLimit True w1 p now t1 t2)) \<and>
            shared (snd (checkLimit True w1 p now t1 t2)) (p, WindowKey) = Some t2 \<and>
            shared (snd (checkLimit True w1 p now t1 t2)) (p, CountKey) = Some 1"
    using f by (simp add: checkLimit_def checkRedisLimit_alone Let_def)
  from o(1) d e show ?thesis by blast
qed

text \<open>
  Claim C1 at the failing input. Two calls for \<open>groq\<close> overlap on an empty store: each
  makes its three reads before either writes, so both take the new-window branch, both
  are admitted, and the count is 1. Twenty-three calls follow one after the other
  inside the window, each admitted and released: 25 calls, \<open>maxRPM\<close>, have been
  admitted. The next call, inside the window and overlapping with nothing, is admitted.
\<close>

theorem overlapping_openings_exceed_rpm:
  "map returned
     (snd (interleave (shared initial_world)
        [checkRedisLimit groq (PROVIDER_LIMITS groq) 1000 1000,
         checkRedisLimit groq (PROVIDER_LIMITS groq) 1000 1000]
        [Runs 0, Runs 0, Runs 0, Runs 1, Runs 1, Runs 1, Runs 0, Runs 0, Runs 1, Runs 1]))
     = [Some \<lparr>allowed = True, remaining = 24, resetMs = 60000\<rparr>,
        Some \<lparr>allowed = True, remaining = 24, resetMs = 60000\<rparr>] \<and>
   fst (interleave (shared initial_world)
        [checkRedisLimit groq (PROVIDER_LIMITS groq) 1000 1000,
         checkRedisLimit groq (PROVIDER_LIMITS groq) 1000 1000]
        [Runs 0, Runs 0, Runs 0, Runs 1, Runs 1, Runs 1, Runs 0, Runs 0, Runs 1, Runs 1])
     (groq, CountKey) = Some 1 \<and>
   list_all (within_window groq 1000)
     (concat (replicate 23 [CheckLimit True groq 1500 1501 1502, ReleaseSlot True groq])) \<and>
   2 + int (admitted_calls groq
      (concat (replicate 23 [CheckLimit True groq 1500 1501 1502, ReleaseSlot True groq]))
      (fst (run (initial_world\<lparr>shared :=
                  fst (interleave (shared initial_world)
                    [checkRedisLimit groq (PROVIDER_LIMITS groq) 1000 1000,
                     checkRedisLimit groq (PROVIDER_LIMITS groq) 1000 1000]
                    [Runs 0, Runs 0, Runs 0, Runs 1, Runs 1, Runs 1, Runs 0, Runs 0,
                     Runs 1, Runs 1])\<rparr>)
         (concat (replicate 23 [CheckLimit True groq 1500 1501 1502, ReleaseSlot True groq])))))
     = maxRPM (PROVIDER_LIMITS groq) \<and>
   fst (checkLimit True
      (snd (run (initial_world\<lparr>shared :=
                  fst (interleave (shared initial_world)
                    [checkRedisLimit groq (PROVIDER_LIMITS groq) 1000 1000,
                     checkRedisLimit groq (PROVIDER_LIMITS groq) 1000 1000]
                    [Runs 0, Runs 0, Runs 0, Runs 1, Runs 1, Runs 1, Runs 0, Runs 0,
                     Runs 1, Runs 1])\<rparr>)
         (concat (replicate 23 [CheckLimit True groq 1500 1501 1502, ReleaseSlot True groq]))))
      groq 2000 2001 2002)
     = \<lparr>allowed = True, remaining = 0, resetMs = 58998\<rparr>"
  by code_simp

lemma checkRedisLimit_conc:
  "0 \<le> or_zero (r (p, ConcurrentKey)) \<Longrightarrow>
   0 \<le> or_zero (snd (run_alone (checkRedisLimit q lim t1 t2) r) (p, ConcurrentKey))"
  by (cases "r (q, WindowKey)"; cases "r (p, ConcurrentKey)")
     (auto simp: checkRedisLimit_alone Let_def redis_incr_def or_zero_def)

lemma checkLocalLimit_conc:
  "0 \<le> or_zero (localConcurrent s p) \<Longrightarrow>
   0 \<le> or_zero (localConcurrent (snd (checkLocalLimit s q lim now)) p)"
  by (cases "localCounts s q"; cases "localConcurrent s p")
     (auto simp: checkLocalLimit_def Let_def or_zero_def)

lemma checkLimit_nonneg:
  "nonneg_counters w p \<Longrightarrow> nonneg_counters (snd (checkLimit reachable w q now t1 t2)) p"
  using checkRedisLimit_conc[of "shared w" p q "PROVIDER_LIMITS q" t1 t2]
        checkLocalLimit_conc[of "inst w" p q "PROVIDER_LIMITS q" now]
  by (cases "run_alone (checkRedisLimit q (PROVIDER_LIMITS q) t1 t2) (shared w)";
      cases "checkLocalLimit (inst w) q (PROVIDER_LIMITS q) now")
     (simp add: nonneg_counters_def checkLimit_def Let_def)

lemma releaseSlot_nonneg:
  "nonneg_counters w p \<Longrightarrow> nonneg_counters (releaseSlot reachable w q) p"
  by (cases "shared w (q, ConcurrentKey)"; cases "shared w (p, ConcurrentKey)"; 
      cases "localConcurrent (inst w) q"; cases "localConcurrent (inst w) p")
     (simp_all add: nonneg_counters_def releaseSlot_def releaseSlot_redis_alone releaseSlot_local_def Let_def redis_decr_def redis_del_def or_zero_def)

lemma expire_nonneg:
  "nonneg_counters w p \<Longrightarrow> nonneg_counters (w\<lparr>shared := redis_del (shared w) (q, k)\<rparr>) p"
  by (simp add: nonneg_counters_def redis_del_def or_zero_def)

lemma step_nonneg: "nonneg_counters w p \<Longrightarrow> nonneg_counters (snd (step w x)) p"
proof (cases x)
  case (CheckLimit b q n t1 t2)
  then show "nonneg_counters w p \<Longrightarrow> ?thesis"
    using checkLimit_nonneg[of w p b q n t1 t2] by (cases "checkLimit b w q n t1 t2") simp
next
  case (ReleaseSlot b q)
  then show "nonneg_counters w p \<Longrightarrow> ?thesis" by (simp add: releaseSlot_nonneg)
next
  case (KeyExpires q k)
  then show "nonneg_counters w p \<Longrightarrow> ?thesis" by (simp add: expire_nonneg)
qed

lemma snd_run_Cons: "snd (run w (x # xs)) = snd (run (snd (step w x)) xs)"
  by (cases "step w x"; cases "run (snd (step w x)) xs") simp

lemma run_nonneg: "nonneg_counters w p \<Longrightarrow> nonneg_counters (snd (run w ops)) p"
proof (induction ops arbitrary: w)
  case Nil then show ?case by simp
next
  case (Cons x xs)
  from step_nonneg[OF Cons.prems] have "nonneg_counters (snd (step w x)) p" .
  from Cons.IH[OF this] show ?case by (simp only: snd_run_Cons)
qed

text \<open>
  Calls that do not overlap. Over every sequence of \<open>checkLimit\<close> and \<open>releaseSlot\<close>
  operations that run one after the other, with key expirations between them, started
  where the two concurrency counters of a provider are not negative, both counters stay
  not negative; and \<open>releaseSlot\<close> on a counter that reads zero leaves it reading zero.
\<close>

lemma sequential_counters_nonneg:
  assumes "nonneg_counters w p"
  shows "nonneg_counters (snd (run w ops)) p \<and>
         (or_zero (shared v (p, ConcurrentKey)) = 0 \<longrightarrow>
            or_zero (shared (releaseSlot reachable v p) (p, ConcurrentKey)) = 0) \<and>
         (or_zero (localConcurrent (inst v) p) = 0 \<longrightarrow>
            or_zero (localConcurrent (inst (releaseSlot reachable v p)) p) = 0)"
  using run_nonneg[OF assms]
  by (auto simp: releaseSlot_def releaseSlot_redis_alone releaseSlot_local_def Let_def redis_decr_def redis_del_def or_zero_def split: option.splits)

text \<open>
  Claim C9 at the failing input. Two calls for \<open>groq\<close> are admitted, the first through
  the new-window branch, and the shared counter holds 1. Both are released and the two
  releases overlap: each reads 1 before the other decrements, both decrement, and the
  shared counter holds -1. One release alone does the same when the key expires
  between its read and its decrement.
\<close>

theorem overlapping_releases_go_negative:
  "list_all is_admitted
     (fst (run initial_world
        [CheckLimit True groq 1000 1000 1000, CheckLimit True groq 1001 1001 1001])) \<and>
   shared (snd (run initial_world
        [CheckLimit True groq 1000 1000 1000, CheckLimit True groq 1001 1001 1001]))
     (groq, ConcurrentKey) = Some 1 \<and>
   fst (interleave
        (shared (snd (run initial_world
           [CheckLimit True groq 1000 1000 1000, CheckLimit True groq 1001 1001 1001])))
        [releaseSlot_redis groq, releaseSlot_redis groq]
        [Runs 0, Runs 1, Runs 0, Runs 1])
     (groq, ConcurrentKey) = Some (- 1) \<and>
   fst (interleave
        (shared (snd (run initial_world
           [CheckLimit True groq 1000 1000 1000, CheckLimit True groq 1001 1001 1001])))
        [releaseSlot_redis groq]
        [Runs 0, Expires (groq, ConcurrentKey), Runs 0])
     (groq, ConcurrentKey) = Some (- 1)"
  by code_simp

lemma boundary_admitted:
  "list_all is_admitted (fst (run initial_world (boundary_trace p reachable)))"
  by (cases p; cases reachable)
     (simp_all add: boundary_trace_def concurrency_budget_def checkLimit_def checkRedisLimit_alone
        checkLocalLimit_def Let_def initial_world_def redis_incr_def or_zero_def numeral_eq_Suc)

lemma boundary_counter:
  "or_zero (shared (snd (run initial_world (boundary_trace p True))) (p, ConcurrentKey))
     = maxConcurrent (PROVIDER_LIMITS p) \<and>
   or_zero (localConcurrent (inst (snd (run initial_world (boundary_trace p False)))) p)
     = concurrency_budget p False"
  by (cases p)
     (simp_all add: boundary_trace_def concurrency_budget_def checkLimit_def checkRedisLimit_alone
        checkLocalLimit_def Let_def initial_world_def redis_incr_def or_zero_def numeral_eq_Suc)

lemma boundary_length:
  "int (length (boundary_trace p reachable)) > maxConcurrent (PROVIDER_LIMITS p)"
  by (cases p; cases reachable) (simp_all add: boundary_trace_def concurrency_budget_def numeral_eq_Suc)

lemma boundary_no_release: "\<not> list_ex is_release (boundary_trace p reachable)"
proof -
  have "\<not> list_ex is_release (openings reachable p n)" for n
    by (induction n) simp_all
  then show ?thesis by (auto simp: boundary_trace_def list_ex_iff)
qed

text \<open>
  Claim C10. A \<open>checkLimit\<close> that takes the new-or-expired-window branch, on the shared
  store or on the local fallback, is admitted whatever the concurrency counter holds
  and leaves that counter as it was. Hence calls in flight can exceed \<open>maxConcurrent\<close>
  across window boundaries: every call of \<open>boundary_trace\<close> is admitted, none is
  released, and there are more of them than \<open>maxConcurrent\<close>.
\<close>

theorem new_window_skips_concurrency:
  "(window_closed (shared w) p t1 \<longrightarrow>
      allowed (fst (checkLimit True w p now t1 t2)) \<and>
      shared (snd (checkLimit True w p now t1 t2)) (p, ConcurrentKey) = shared w (p, ConcurrentKey) \<and>
      inst (snd (checkLimit True w p now t1 t2)) = inst w) \<and>
   (local_window_closed (inst w) p now \<longrightarrow>
      allowed (fst (checkLimit False w p now t1 t2)) \<and>
      localConcurrent (inst (snd (checkLimit False w p now t1 t2))) = localConcurrent (inst w) \<and>
      shared (snd (checkLimit False w p now t1 t2)) = shared w) \<and>
   list_all is_admitted (fst (run initial_world (boundary_trace p reachable))) \<and>
   \<not> list_ex is_release (boundary_trace p reachable) \<and>
   int (length (boundary_trace p reachable)) > maxConcurrent (PROVIDER_LIMITS p)"
proof -
  have a: "window_closed (shared w) p t1 \<Longrightarrow>
      allowed (fst (checkLimit True w p now t1 t2)) \<and>
      shared (snd (checkLimit True w p now t1 t2)) (p, ConcurrentKey) = shared w (p, ConcurrentKey) \<and>
      inst (snd (checkLimit True w p now t1 t2)) = inst w"
    by (auto simp: window_closed_def checkLimit_def checkRedisLimit_alone Let_def split: option.splits)
  have b: "local_window_closed (inst w) p now \<Longrightarrow>
      allowed (fst (checkLimit False w p now t1 t2)) \<and>
      localConcurrent (inst (snd (checkLimit False w p now t1 t2))) = localConcurrent (inst w) \<and>
      shared (snd (checkLimit False w p now t1 t2)) = shared w"
    by (auto simp: local_window_closed_def checkLimit_def checkLocalLimit_def Let_def split: option.splits)
  from a b boundary_admitted[of p reachable] boundary_no_release[of p reachable]
    boundary_length[of p reachable]
  show ?thesis by blast
qed

theorem new_window_skips_concurrency_witness:
  "window_closed
     (shared (snd (run initial_world
        [CheckLimit True groq 1 1 1, CheckLimit True groq 2 2 2, CheckLimit True groq 2 2 2,
         CheckLimit True groq 2 2 2]))) groq 70000 \<and>
   shared (snd (run initial_world
        [CheckLimit True groq 1 1 1, CheckLimit True groq 2 2 2, CheckLimit True groq 2 2 2,
         CheckLimit True groq 2 2 2])) (groq, ConcurrentKey) = Some 3 \<and>
   allowed (fst (checkLimit True
     (snd (run initial_world
        [CheckLimit True groq 1 1 1, CheckLimit True groq 2 2 2, CheckLimit True groq 2 2 2,
         CheckLimit True groq 2 2 2])) groq 70000 70000 70000)) \<and>
   shared (snd (checkLimit True
     (snd (run initial_world
        [CheckLimit True groq 1 1 1, CheckLimit True groq 2 2 2, CheckLimit True groq 2 2 2,
         CheckLimit True groq 2 2 2])) groq 70000 70000 70000)) (groq, ConcurrentKey) = Some 3 \<and>
   local_window_closed
     (inst (snd (run initial_world
        [CheckLimit False groq 1 1 1, CheckLimit False groq 2 2 2, CheckLimit False groq 2 2 2])))
     groq 70000 \<and>
   allowed (fst (checkLimit False
     (snd (run initial_world
        [CheckLimit False groq 1 1 1, CheckLimit False groq 2 2 2, CheckLimit False groq 2 2 2]))
     groq 70000 70000 70000)) \<and>
   localConcurrent (inst (snd (checkLimit False
     (snd (run initial_world
        [CheckLimit False groq 1 1 1, CheckLimit False groq 2 2 2, CheckLimit False groq 2 2 2]))
     groq 70000 70000 70000))) groq = Some 2"
proof -
  let ?w = "snd (run initial_world
        [CheckLimit True groq 1 1 1, CheckLimit True groq 2 2 2, CheckLimit True groq 2 2 2,
         CheckLimit True groq 2 2 2])"
  let ?v = "snd (run initial_world
        [CheckLimit False groq 1 1 1, CheckLimit False groq 2 2 2, CheckLimit False groq 2 2 2])"
  have h1: "window_closed (shared ?w) groq 70000"
    by (simp add: window_closed_def checkLimit_def checkRedisLimit_alone Let_def initial_world_def
        redis_incr_def or_zero_def)
  have h2: "shared ?w (groq, ConcurrentKey) = Some 3"
    by (simp add: checkLimit_def checkRedisLimit_alone Let_def initial_world_def
        redis_incr_def or_zero_def)
  have h3: "local_window_closed (inst ?v) groq 70000"
    by (simp add: local_window_closed_def checkLimit_def checkLocalLimit_def Let_def
        initial_world_def or_zero_def)
  have h4: "localConcurrent (inst ?v) groq = Some 2"
    by (simp add: checkLimit_def checkLocalLimit_def Let_def initial_world_def or_zero_def)
  from new_window_skips_concurrency[of ?w groq 70000 70000 70000 True] h1 h2
  have s: "allowed (fst (checkLimit True ?w groq 70000 70000 70000)) \<and>
    shared (snd (checkLimit True ?w groq 70000 70000 70000)) (groq, ConcurrentKey) = Some 3"
    by simp
  from new_window_skips_concurrency[of ?v groq 70000 70000 70000 True] h3 h4
  have l: "allowed (fst (checkLimit False ?v groq 70000 70000 70000)) \<and>
    localConcurrent (inst (snd (checkLimit False ?v groq 70000 70000 70000))) groq = Some 2"
    by simp
  from h1 h2 h3 s l show ?thesis by blast
qed

section \<open>Theorems: persistent response cache\<close>

lemma ffilter_member_inter: "ffilter (\<lambda>x. x |\<in>| B) A = A |\<inter>| B"
  by auto

lemma fcard_zero_iff: "fcard A = 0 \<longleftrightarrow> A = {||}"
  by (cases "A = {||}") (auto simp: fcard_0_eq)

lemma jaccard_unfold:
  "jaccardSimilarity A B =
     (if A = {||} \<or> B = {||} then 0
      else of_nat (fcard (A |\<inter>| B)) / of_nat (fcard (A |\<union>| B)))"
  by (simp add: jaccardSimilarity_def Let_def ffilter_member_inter fcard_zero_iff)

text \<open>
  Claim C8. For all token sets \<open>A\<close> and \<open>B\<close>: \<open>jaccardSimilarity A B\<close> is the size of
  the intersection divided by the size of the union when both sets are non-empty, and 0
  when either is empty; it is symmetric, 0 for disjoint sets and 1 for identical
  non-empty sets.
\<close>

theorem jaccardSimilarity_props:
  "(A \<noteq> {||} \<and> B \<noteq> {||} \<longrightarrow>
      jaccardSimilarity A B = of_nat (fcard (A |\<inter>| B)) / of_nat (fcard (A |\<union>| B))) \<and>
   (A = {||} \<or> B = {||} \<longrightarrow> jaccardSimilarity A B = 0) \<and>
   jaccardSimilarity A B = jaccardSimilarity B A \<and>
   (A |\<inter>| B = {||} \<longrightarrow> jaccardSimilarity A B = 0) \<and>
   (A \<noteq> {||} \<longrightarrow> jaccardSimilarity A A = 1)"
proof -
  have sym: "jaccardSimilarity A B = jaccardSimilarity B A"
    by (simp add: jaccard_unfold inf_commute sup_commute disj_commute)
  have same: "A \<noteq> {||} \<Longrightarrow> jaccardSimilarity A A = 1"
    by (simp add: jaccard_unfold fcard_zero_iff)
  have disj: "A |\<inter>| B = {||} \<Longrightarrow> jaccardSimilarity A B = 0"
    by (simp add: jaccard_unfold)
  from sym same disj show ?thesis by (simp add: jaccard_unfold)
qed

theorem jaccardSimilarity_props_witness:
  "jaccardSimilarity {|''build'', ''todo''|} {|''todo'', ''app''|} = 1 / 3 \<and>
   jaccardSimilarity {||} {|''todo'', ''app''|} = 0 \<and>
   jaccardSimilarity {|''todo'', ''app''|} {|''build'', ''todo''|} = 1 / 3 \<and>
   jaccardSimilarity {|''build''|} {|''app''|} = 0 \<and>
   jaccardSimilarity {|''build'', ''todo''|} {|''build'', ''todo''|} = 1"
proof -
  have n: "{|''build'', ''todo''|} \<noteq> {||}" "{|''todo'', ''app''|} \<noteq> {||}" by simp_all
  have c: "fcard ({|''build'', ''todo''|} |\<inter>| {|''todo'', ''app''|}) = 1"
    "fcard ({|''build'', ''todo''|} |\<union>| {|''todo'', ''app''|}) = 3"
    by code_simp+
  have d: "{|''build''|} |\<inter>| {|''app''|} = ({||} :: string fset)" by simp
  from jaccardSimilarity_props[of "{|''build'', ''todo''|}" "{|''todo'', ''app''|}"] n c
  have a1: "jaccardSimilarity {|''build'', ''todo''|} {|''todo'', ''app''|} = 1 / 3"
    and a3: "jaccardSimilarity {|''todo'', ''app''|} {|''build'', ''todo''|} = 1 / 3"
    and a5: "jaccardSimilarity {|''build'', ''todo''|} {|''build'', ''todo''|} = 1"
    by simp_all
  from jaccardSimilarity_props[of "{||}" "{|''todo'', ''app''|}"]
  have a2: "jaccardSimilarity {||} {|''todo'', ''app''|} = 0" by simp
  from jaccardSimilarity_props[of "{|''build''|}" "{|''app''|}"] d
  have a4: "jaccardSimilarity {|''build''|} {|''app''|} = 0" by simp
  from a1 a2 a3 a4 a5 show ?thesis by simp
qed

lemma similarity_response_of [simp]: "similarity (response_of prompt j) = job_similarity prompt j"
  by (simp add: response_of_def)

lemma scan_jobs_skip:
  "\<not> (has_text j \<and> job_similarity p j \<ge> th \<and> job_similarity p j > bs) \<Longrightarrow>
   scan_jobs p th (j # js) bm bs = scan_jobs p th js bm bs"
  by (auto simp: Let_def)

lemma scan_jobs_take:
  "has_text j \<and> job_similarity p j \<ge> th \<and> job_similarity p j > bs \<Longrightarrow>
   scan_jobs p th (j # js) bm bs =
   scan_jobs p th js (Some (response_of p j)) (job_similarity p j)"
  by (simp add: Let_def)

lemma scan_jobs_None:
  "best_inv th bm bs \<Longrightarrow>
   (scan_jobs p th js bm bs = None) =
   (bm = None \<and> list_all (\<lambda>j. \<not> acceptable p th j) js)"
proof (induction js arbitrary: bm bs)
  case Nil
  then show ?case by simp
next
  case (Cons j js)
  show ?case
  proof (cases "has_text j \<and> job_similarity p j \<ge> th \<and> job_similarity p j > bs")
    case True
    with Cons.prems have pos: "job_similarity p j > 0"
      by (auto simp: best_inv_def split: option.splits)
    from True pos have inv': "best_inv th (Some (response_of p j)) (job_similarity p j)"
      by (simp add: best_inv_def)
    from True pos Cons.IH[OF inv'] show ?thesis
      by (simp add: Let_def acceptable_def)
  next
    case False
    with Cons.prems have na: "bm = None \<Longrightarrow> \<not> acceptable p th j"
      by (auto simp: best_inv_def acceptable_def)
    from False Cons.IH[OF Cons.prems] na show ?thesis
      by (auto simp: Let_def)
  qed
qed

lemma scan_jobs_Some:
  "best_inv th bm bs \<Longrightarrow> scan_jobs p th js bm bs = Some r \<Longrightarrow>
   (bm = Some r \<or> list_ex (\<lambda>j. has_text j \<and> r = response_of p j) js) \<and>
   similarity r \<ge> th \<and> similarity r > 0 \<and> similarity r \<ge> bs \<and>
   list_all (\<lambda>k. has_text k \<longrightarrow> job_similarity p k \<le> similarity r) js"
proof (induction js arbitrary: bm bs)
  case Nil
  then show ?case by (auto simp: best_inv_def)
next
  case (Cons j js)
  show ?case
  proof (cases "has_text j \<and> job_similarity p j \<ge> th \<and> job_similarity p j > bs")
    case True
    with Cons.prems(1) have pos: "job_similarity p j > 0"
      by (auto simp: best_inv_def split: option.splits)
    from True pos have inv': "best_inv th (Some (response_of p j)) (job_similarity p j)"
      by (simp add: best_inv_def)
    from True Cons.prems(2)
    have run: "scan_jobs p th js (Some (response_of p j)) (job_similarity p j) = Some r"
      by (simp add: Let_def)
    from Cons.IH[OF inv' run] True show ?thesis by auto
  next
    case False
    from Cons.prems(2) scan_jobs_skip[OF False, of js bm]
    have run: "scan_jobs p th js bm bs = Some r" by simp
    from Cons.IH[OF Cons.prems(1) run]
    have ih: "(bm = Some r \<or> list_ex (\<lambda>j. has_text j \<and> r = response_of p j) js)"
      "similarity r \<ge> th" "similarity r > 0" "similarity r \<ge> bs"
      "list_all (\<lambda>k. has_text k \<longrightarrow> job_similarity p k \<le> similarity r) js"
      by auto
    from False ih(2,4) have "has_text j \<longrightarrow> job_similarity p j \<le> similarity r"
      by auto
    with ih show ?thesis by auto
  qed
qed

lemma set_query_jobs: "set (query_jobs table cutoff) \<subseteq> {j \<in> set table. in_window cutoff j}"
proof -
  have "set (take 100 (sort_key recency (filter (in_window cutoff) table)))
        \<subseteq> set (sort_key recency (filter (in_window cutoff) table))"
    by (rule set_take_subset)
  then show ?thesis by (auto simp: query_jobs_def)
qed

lemma query_jobs_all:
  "length (filter (in_window cutoff) table) \<le> 100 \<Longrightarrow>
   set (query_jobs table cutoff) = {j \<in> set table. in_window cutoff j}"
  by (auto simp: query_jobs_def)

lemma query_jobs_most_recent:
  assumes j: "j \<in> set table" "in_window cutoff j" "j \<notin> set (query_jobs table cutoff)"
    and k: "k \<in> set (query_jobs table cutoff)"
  shows "recency k \<le> recency j"
proof -
  let ?s = "sort_key recency (filter (in_window cutoff) table)"
  have srt: "sorted (map recency (take 100 ?s @ drop 100 ?s))" by simp
  have "set ?s = set (take 100 ?s) \<union> set (drop 100 ?s)"
    by (metis append_take_drop_id set_append)
  moreover from j have "j \<in> set ?s" by simp
  ultimately have jd: "j \<in> set (drop 100 ?s)" using j(3) by (auto simp: query_jobs_def)
  from k have kt: "k \<in> set (take 100 ?s)" by (simp add: query_jobs_def)
  from srt have "\<forall>x\<in>set (take 100 ?s). \<forall>y\<in>set (drop 100 ?s). recency x \<le> recency y"
    unfolding map_append sorted_append by auto
  with jd kt show ?thesis by blast
qed

text \<open>
  Claim C7, amended. The rows compared are those returned by the query: completed jobs
  inside the age window, at most 100 of them, and no in-window job left out was
  completed later than one that is compared; when at most 100 jobs are inside the
  window, all of them are compared. A returned record comes from a compared job with a
  non-empty request text, so it is never older than \<open>maxAgeHours\<close> before the call; its
  similarity is at least the threshold, positive, and not exceeded by any compared job.
  The result is \<open>null\<close> exactly when no compared job has a similarity that is both at
  least the threshold and positive.
\<close>

theorem findCachedResponse_scans_recent:
  "(case findCachedResponse prompt (Some table) now maxAgeHours threshold of
      None \<Rightarrow>
        list_all (\<lambda>j. \<not> acceptable prompt threshold j)
          (query_jobs table (now - maxAgeHours * 3600000))
    | Some r \<Rightarrow>
        list_ex (\<lambda>j. has_text j \<and> r = response_of prompt j \<and>
                     status j = ''completed'' \<and>
                     completed_at j = Some (completedAt r))
          (query_jobs table (now - maxAgeHours * 3600000)) \<and>
        completedAt r \<ge> now - maxAgeHours * 3600000 \<and>
        similarity r \<ge> threshold \<and> similarity r > 0 \<and>
        list_all (\<lambda>k. has_text k \<longrightarrow> job_similarity prompt k \<le> similarity r)
          (query_jobs table (now - maxAgeHours * 3600000))) \<and>
   set (query_jobs table (now - maxAgeHours * 3600000))
     \<subseteq> {j \<in> set table. in_window (now - maxAgeHours * 3600000) j} \<and>
   length (query_jobs table (now - maxAgeHours * 3600000)) \<le> 100 \<and>
   (\<forall>j\<in>set table. \<forall>k\<in>set (query_jobs table (now - maxAgeHours * 3600000)).
      in_window (now - maxAgeHours * 3600000) j \<and>
      j \<notin> set (query_jobs table (now - maxAgeHours * 3600000)) \<longrightarrow>
      recency k \<le> recency j) \<and>
   (length (filter (in_window (now - maxAgeHours * 3600000)) table) \<le> 100 \<longrightarrow>
      set (query_jobs table (now - maxAgeHours * 3600000))
        = {j \<in> set table. in_window (now - maxAgeHours * 3600000) j})"
proof -
  let ?c = "now - maxAgeHours * 3600000"
  let ?q = "query_jobs table ?c"
  have inv0: "best_inv threshold None 0" by (simp add: best_inv_def)
  have fc: "findCachedResponse prompt (Some table) now maxAgeHours threshold
            = scan_jobs prompt threshold ?q None 0"
    by (cases ?q) (simp_all add: findCachedResponse_def Let_def)
  have sub: "set ?q \<subseteq> {j \<in> set table. in_window ?c j}" by (rule set_query_jobs)
  have part1: "(case scan_jobs prompt threshold ?q None 0 of
      None \<Rightarrow> list_all (\<lambda>j. \<not> acceptable prompt threshold j) ?q
    | Some r \<Rightarrow>
        list_ex (\<lambda>j. has_text j \<and> r = response_of prompt j \<and>
                     status j = ''completed'' \<and>
                     completed_at j = Some (completedAt r)) ?q \<and>
        completedAt r \<ge> ?c \<and>
        similarity r \<ge> threshold \<and> similarity r > 0 \<and>
        list_all (\<lambda>k. has_text k \<longrightarrow> job_similarity prompt k \<le> similarity r) ?q)"
  proof (cases "scan_jobs prompt threshold ?q None 0")
    case None
    with scan_jobs_None[OF inv0, of prompt ?q] show ?thesis by simp
  next
    case (Some r)
    from scan_jobs_Some[OF inv0 Some]
    obtain j where j: "j \<in> set ?q" "has_text j" "r = response_of prompt j"
      and rest: "similarity r \<ge> threshold" "similarity r > 0"
        "list_all (\<lambda>k. has_text k \<longrightarrow> job_similarity prompt k \<le> similarity r) ?q"
      by (auto simp: list_ex_iff)
    from j(1) sub have w: "in_window ?c j" by auto
    then obtain t where t: "completed_at j = Some t" "t \<ge> ?c" "status j = ''completed''"
      by (auto simp: in_window_def split: option.splits)
    from j(3) t have ca: "completedAt r = t" by (simp add: response_of_def)
    from j t ca have "list_ex (\<lambda>j. has_text j \<and> r = response_of prompt j \<and>
                     status j = ''completed'' \<and>
                     completed_at j = Some (completedAt r)) ?q"
      unfolding list_ex_iff by blast
    with Some rest t ca show ?thesis by simp
  qed
  have len: "length ?q \<le> 100" by (simp add: query_jobs_def)
  have recent: "\<forall>j\<in>set table. \<forall>k\<in>set ?q. in_window ?c j \<and> j \<notin> set ?q \<longrightarrow> recency k \<le> recency j"
    using query_jobs_most_recent by blast
  have all: "length (filter (in_window ?c) table) \<le> 100 \<longrightarrow> set ?q = {j \<in> set table. in_window ?c j}"
    using query_jobs_all by blast
  from part1 fc sub len recent all show ?thesis by simp
qed

theorem findCachedResponse_scans_recent_witness:
  "findCachedResponse ''build todo app''
     (Some [\<lparr>job_id = ''old'', status = ''completed'', input_message = Some ''build todo app'',
             output_content = Some ''stale'', job_files = None, completed_at = Some 1000\<rparr>,
            \<lparr>job_id = ''new'', status = ''completed'',
             input_message = Some ''Build a todo   App please'',
             output_content = Some ''fresh'', job_files = None,
             completed_at = Some 100000000\<rparr>])
     300000000 72 (7 / 10)
   = Some \<lparr>jobId = ''new'', outputContent = ''fresh'', cached_files = None,
            completedAt = 100000000, similarity = 3 / 4\<rparr> \<and>
   length (filter (in_window (300000000 - 72 * 3600000))
     [\<lparr>job_id = ''old'', status = ''completed'', input_message = Some ''build todo app'',
             output_content = Some ''stale'', job_files = None, completed_at = Some 1000\<rparr>,
            \<lparr>job_id = ''new'', status = ''completed'',
             input_message = Some ''Build a todo   App please'',
             output_content = Some ''fresh'', job_files = None,
             completed_at = Some 100000000\<rparr>]) \<le> 100 \<and>
   set (query_jobs
     [\<lparr>job_id = ''old'', status = ''completed'', input_message = Some ''build todo app'',
             output_content = Some ''stale'', job_files = None, completed_at = Some 1000\<rparr>,
            \<lparr>job_id = ''new'', status = ''completed'',
             input_message = Some ''Build a todo   App please'',
             output_content = Some ''fresh'', job_files = None,
             completed_at = Some 100000000\<rparr>] (300000000 - 72 * 3600000))
   = {j \<in> set [\<lparr>job_id = ''old'', status = ''completed'', input_message = Some ''build todo app'',
             output_content = Some ''stale'', job_files = None, completed_at = Some 1000\<rparr>,
            \<lparr>job_id = ''new'', status = ''completed'',
             input_message = Some ''Build a todo   App please'',
             output_content = Some ''fresh'', job_files = None,
             completed_at = Some 100000000\<rparr>]. in_window (300000000 - 72 * 3600000) j} \<and>
   (100000000 :: int) \<ge> 300000000 - 72 * 3600000 \<and>
   (3 / 4 :: rat) \<ge> 7 / 10"
proof -
  let ?tbl = "[\<lparr>job_id = ''old'', status = ''completed'', input_message = Some ''build todo app'',
             output_content = Some ''stale'', job_files = None, completed_at = Some 1000\<rparr>,
            \<lparr>job_id = ''new'', status = ''completed'',
             input_message = Some ''Build a todo   App please'',
             output_content = Some ''fresh'', job_files = None,
             completed_at = Some 100000000\<rparr>]"
  have e: "findCachedResponse ''build todo app'' (Some ?tbl) 300000000 72 (7 / 10)
     = Some \<lparr>jobId = ''new'', outputContent = ''fresh'', cached_files = None,
            completedAt = 100000000, similarity = 3 / 4\<rparr>"
    by code_simp
  have l: "length (filter (in_window (300000000 - 72 * 3600000)) ?tbl) \<le> 100"
    by code_simp
  from findCachedResponse_scans_recent[where prompt = "''build todo app''" and table = ?tbl
      and now = 300000000 and maxAgeHours = 72 and threshold = "7 / 10"]
  have t: "length (filter (in_window (300000000 - 72 * 3600000)) ?tbl) \<le> 100 \<longrightarrow>
      set (query_jobs ?tbl (300000000 - 72 * 3600000))
        = {j \<in> set ?tbl. in_window (300000000 - 72 * 3600000) j}"
    and u: "(case findCachedResponse ''build todo app'' (Some ?tbl) 300000000 72 (7 / 10) of
        None \<Rightarrow> True
      | Some r \<Rightarrow> completedAt r \<ge> 300000000 - 72 * 3600000 \<and> similarity r \<ge> 7 / 10)"
    by (auto split: option.splits)
  from u e have v: "(100000000 :: int) \<ge> 300000000 - 72 * 3600000 \<and> (3 / 4 :: rat) \<ge> 7 / 10"
    by simp
  from e l t v show ?thesis by blast
qed

lemma scan_jobs_replicate:
  "\<not> (has_text j \<and> job_similarity p j \<ge> th \<and> job_similarity p j > bs) \<Longrightarrow>
   scan_jobs p th (replicate n j) bm bs = bm"
proof (induction n)
  case 0
  show ?case by simp
next
  case (Suc n)
  from scan_jobs_skip[OF Suc.prems, of "replicate n j" bm] Suc.IH[OF Suc.prems]
  show ?case by (simp only: replicate_Suc)
qed

lemma query_jobs_sorted:
  "list_all (in_window cutoff) table \<Longrightarrow> sorted (map recency table) \<Longrightarrow>
   query_jobs table cutoff = take 100 table"
  by (simp add: query_jobs_def list_all_iff sort_key_id_if_sorted)

text \<open>
  Claim C7 as stated fails when more than 100 jobs are inside the age window: with 100
  recent unrelated jobs and one earlier in-window job whose request is identical to the
  prompt (similarity 1, above the threshold 0.7), the result is \<open>null\<close>.
\<close>

theorem findCachedResponse_limit_counterexample:
  "findCachedResponse ''build todo app''
     (Some (replicate 100
              \<lparr>job_id = ''recent'', status = ''completed'', input_message = Some ''weather report'',
               output_content = Some ''out'', job_files = None, completed_at = Some 200000000\<rparr>
            @ [\<lparr>job_id = ''same'', status = ''completed'', input_message = Some ''build todo app'',
               output_content = Some ''todo'', job_files = None, completed_at = Some 100000000\<rparr>]))
     300000000 72 (7 / 10) = None \<and>
   in_window (300000000 - 72 * 3600000)
     \<lparr>job_id = ''same'', status = ''completed'', input_message = Some ''build todo app'',
      output_content = Some ''todo'', job_files = None, completed_at = Some 100000000\<rparr> \<and>
   job_similarity ''build todo app''
     \<lparr>job_id = ''same'', status = ''completed'', input_message = Some ''build todo app'',
      output_content = Some ''todo'', job_files = None, completed_at = Some 100000000\<rparr> = 1 \<and>
   (1 :: rat) \<ge> 7 / 10"
proof -
  let ?a = "\<lparr>job_id = ''recent'', status = ''completed'', input_message = Some ''weather report'',
               output_content = Some ''out'', job_files = None, completed_at = Some 200000000\<rparr>"
  let ?b = "\<lparr>job_id = ''same'', status = ''completed'', input_message = Some ''build todo app'',
               output_content = Some ''todo'', job_files = None, completed_at = Some 100000000\<rparr>"
  let ?c = "300000000 - 72 * 3600000 :: int"
  have wa: "in_window ?c ?a" and wb: "in_window ?c ?b" by code_simp+
  have ra: "recency ?a = - 200000000" and rb: "recency ?b = - 100000000"
    by (simp_all add: recency_def)
  have sa: "job_similarity ''build todo app'' ?a = 0" by code_simp
  have sb: "job_similarity ''build todo app'' ?b = 1" by code_simp
  have srt: "sorted (map recency (replicate 100 ?a @ [?b]))"
    by (simp add: sorted_append ra rb)
  have inw: "list_all (in_window ?c) (replicate 100 ?a @ [?b])"
    using wa wb by (simp add: list_all_iff)
  from query_jobs_sorted[OF inw srt]
  have q: "query_jobs (replicate 100 ?a @ [?b]) ?c = replicate 100 ?a" by simp
  have nacc: "\<not> (has_text ?a \<and> job_similarity ''build todo app'' ?a \<ge> 7 / 10 \<and>
      job_similarity ''build todo app'' ?a > 0)"
    by (simp add: sa)
  have "findCachedResponse ''build todo app'' (Some (replicate 100 ?a @ [?b])) 300000000 72 (7 / 10)
        = scan_jobs ''build todo app'' (7 / 10) (replicate 100 ?a) None 0"
    unfolding findCachedResponse_def Let_def using q by simp
  also have "\<dots> = None" by (rule scan_jobs_replicate[OF nacc])
  finally show ?thesis using wb sb by simp
qed

section \<open>Theorems: parallel executor\<close>

lemma executeParallel_from_quiet:
  "quiet cb \<Longrightarrow>
   executeParallel_from ex extract cb tasks n i groups acc
     = Inr (results_from ex extract tasks groups acc)"
  by (induction groups arbitrary: i acc) (simp_all add: quiet_def Let_def)



lemma taskId_run_task [simp]: "taskId (run_task ex extract prev t) = task_id t"
  by (simp add: run_task_def executeAgent_def failed_result_def
      split: agent_run.splits settled.splits)





lemma distinct_count_one: "distinct xs \<Longrightarrow> x \<in> set xs \<Longrightarrow> count_list xs x = 1"
  by (induction xs) auto

lemma count_one_distinct: "(\<forall>x\<in>set xs. count_list xs x = 1) \<Longrightarrow> distinct xs"
proof (induction xs)
  case Nil
  show ?case by simp
next
  case (Cons a xs)
  from Cons.prems have a: "count_list xs a = 0" by simp
  then have na: "a \<notin> set xs" by (simp add: count_list_0_iff)
  have "\<forall>x\<in>set xs. count_list xs x = 1"
  proof
    fix x assume x: "x \<in> set xs"
    with na have "x \<noteq> a" by auto
    with Cons.prems x show "count_list xs x = 1" by auto
  qed
  from Cons.IH[OF this] na show ?case by simp
qed

lemma count_list_concat:
  "count_list (concat xss) x = sum_list (map (\<lambda>xs. count_list xs x) xss)"
  by (induction xss) simp_all

lemma count_list_filter:
  "count_list (filter P xs) x = (if P x then count_list xs x else 0)"
  by (induction xs) auto

lemma sum_list_indicator:
  "sum_list (map (\<lambda>g. if P g then (1::nat) else 0) gs) = length (filter P gs)"
  by (induction gs) simp_all

lemma count_groups:
  "count_list ids x = 1 \<Longrightarrow>
   sum_list (map (\<lambda>g. count_list (filter (\<lambda>i. i \<in> set g) ids) x) gs)
     = length (filter (\<lambda>g. x \<in> set g) gs)"
  by (induction gs) (simp_all add: count_list_filter)

lemma group_task_ids_filter:
  "group_task_ids tasks g = filter (\<lambda>x. x \<in> set g) (map task_id tasks)"
  by (simp add: group_task_ids_def filter_map comp_def)

lemma results_from_ids:
  "map taskId (results_from ex extract tasks groups acc)
     = map taskId acc @ concat (map (group_task_ids tasks) groups)"
  by (induction groups arbitrary: acc) (simp_all add: group_task_ids_def comp_def)

lemma length_filter_count: "length (filter (\<lambda>r. f r = x) rs) = count_list (map f rs) x"
  by (induction rs) auto

lemma ids_once:
  assumes inv: "plan_invariant plan" and t: "t \<in> set (subTasks plan)"
  shows "count_list (concat (map (group_task_ids (subTasks plan)) (parallelGroups plan)))
           (task_id t) = 1"
proof -
  let ?ids = "map task_id (subTasks plan)"
  from inv have d: "distinct ?ids" by (simp add: plan_invariant_def)
  from t have "task_id t \<in> set ?ids" by simp
  with d have c1: "count_list ?ids (task_id t) = 1"
    by (simp add: distinct_count_one)
  from inv t have one: "length (filter (\<lambda>g. task_id t \<in> set g) (parallelGroups plan)) = 1"
    by (simp add: plan_invariant_def list_all_iff)
  have "count_list (concat (map (group_task_ids (subTasks plan)) (parallelGroups plan))) (task_id t)
        = length (filter (\<lambda>g. task_id t \<in> set g) (parallelGroups plan))"
    by (simp add: count_list_concat comp_def group_task_ids_filter count_groups[OF c1])
  also note one
  finally show ?thesis .
qed

text \<open>
  Claim C3, amended. \<open>executeParallel\<close> returns the results group by group in the
  order of \<open>parallelGroups\<close> and, within a group, in the order of the plan's task
  list, whatever the order of completion. For a plan that satisfies the invariant there
  is exactly one result per task, and no other result.
\<close>

theorem executeParallel_group_order:
  assumes q: "quiet cb"
  shows "\<exists>results. executeParallel ex extract cb plan = Inr results \<and>
     map taskId results
       = concat (map (group_task_ids (subTasks plan)) (parallelGroups plan)) \<and>
     (plan_invariant plan \<longrightarrow>
        length results = length (subTasks plan) \<and>
        (\<forall>t\<in>set (subTasks plan).
           length (filter (\<lambda>r. taskId r = task_id t) results) = 1) \<and>
        (\<forall>r\<in>set results. \<exists>t\<in>set (subTasks plan). taskId r = task_id t))"
proof -
  let ?res = "results_from ex extract (subTasks plan) (parallelGroups plan) []"
  let ?rids = "concat (map (group_task_ids (subTasks plan)) (parallelGroups plan))"
  let ?ids = "map task_id (subTasks plan)"
  have a: "executeParallel ex extract cb plan = Inr ?res"
    by (simp add: executeParallel_def executeParallel_from_quiet[OF q])
  have b: "map taskId ?res = ?rids"
    by (simp add: results_from_ids)
  have sub: "set ?rids \<subseteq> set ?ids"
    by (auto simp: group_task_ids_def)
  have c: "length ?res = length (subTasks plan) \<and>
        (\<forall>t\<in>set (subTasks plan). length (filter (\<lambda>r. taskId r = task_id t) ?res) = 1) \<and>
        (\<forall>r\<in>set ?res. \<exists>t\<in>set (subTasks plan). taskId r = task_id t)"
    if inv: "plan_invariant plan"
  proof -
    have once: "count_list ?rids x = 1" if "x \<in> set ?ids" for x
      using that ids_once[OF inv] by auto
    have c1: "\<forall>t\<in>set (subTasks plan). length (filter (\<lambda>r. taskId r = task_id t) ?res) = 1"
      using once b by (simp add: length_filter_count)
    have sup: "set ?ids \<subseteq> set ?rids"
    proof
      fix x assume "x \<in> set ?ids"
      from once[OF this] have "count_list ?rids x \<noteq> 0" by simp
      then show "x \<in> set ?rids" by (simp add: count_list_0_iff)
    qed
    from sub sup have seteq: "set ?rids = set ?ids" by auto
    have "\<forall>x\<in>set ?rids. count_list ?rids x = 1" using once sub by auto
    then have dr: "distinct ?rids" by (rule count_one_distinct)
    from inv have di: "distinct ?ids" by (simp add: plan_invariant_def)
    from dr di seteq have "length ?rids = length ?ids"
      by (metis distinct_card)
    with b have c2: "length ?res = length (subTasks plan)"
      by (metis length_map)
    have c3: "\<forall>r\<in>set ?res. \<exists>t\<in>set (subTasks plan). taskId r = task_id t"
    proof
      fix r assume "r \<in> set ?res"
      then have "taskId r \<in> set (map taskId ?res)" by simp
      with b sub have "taskId r \<in> set ?ids" by auto
      then show "\<exists>t\<in>set (subTasks plan). taskId r = task_id t" by auto
    qed
    from c1 c2 c3 show ?thesis by blast
  qed
  from a b c show ?thesis by blast
qed

theorem executeParallel_group_order_witness:
  "quiet None \<and> plan_invariant demo_plan \<and>
   executeParallel demo_agents (\<lambda>text. []) None demo_plan =
     Inr [\<lparr>taskId = ''design-1'', agent = ''design'', success = True,
           agent_output = ''done design-1'', files = Some [], duration = 1200\<rparr>,
          \<lparr>taskId = ''frontend-1'', agent = ''frontend'', success = False,
           agent_output = ''Error: Agent frontend timeout after 60s'', files = Some [],
           duration = 60000\<rparr>,
          \<lparr>taskId = ''frontend-2'', agent = ''frontend'', success = True,
           agent_output = ''done frontend-2'', files = Some [], duration = 1200\<rparr>] \<and>
   concat (map (group_task_ids (subTasks demo_plan)) (parallelGroups demo_plan))
     = [''design-1'', ''frontend-1'', ''frontend-2''] \<and>
   length (subTasks demo_plan) = 3"
proof -
  have q: "quiet None" by (simp add: quiet_def notify_def)
  have i: "plan_invariant demo_plan"
    by (simp add: plan_invariant_def demo_plan_def earlier_group_def)
  have e: "executeParallel demo_agents (\<lambda>text. []) None demo_plan =
     Inr [\<lparr>taskId = ''design-1'', agent = ''design'', success = True,
           agent_output = ''done design-1'', files = Some [], duration = 1200\<rparr>,
          \<lparr>taskId = ''frontend-1'', agent = ''frontend'', success = False,
           agent_output = ''Error: Agent frontend timeout after 60s'', files = Some [],
           duration = 60000\<rparr>,
          \<lparr>taskId = ''frontend-2'', agent = ''frontend'', success = True,
           agent_output = ''done frontend-2'', files = Some [], duration = 1200\<rparr>]"
    by (simp add: executeParallel_def demo_plan_def demo_agents_def notify_def Let_def
        run_task_def executeAgent_def failed_result_def AGENT_TIMEOUT_def)
  from executeParallel_group_order[OF q, of demo_agents "\<lambda>text. []" demo_plan] e i
  have "concat (map (group_task_ids (subTasks demo_plan)) (parallelGroups demo_plan))
     = [''design-1'', ''frontend-1'', ''frontend-2'']"
    and "length (subTasks demo_plan) = 3"
    by auto
  with q i e show ?thesis by blast
qed

text \<open>
  Claim C3 as stated fails for a plan that satisfies the invariant and lists a task
  before its dependency: the results come in the order of the groups, not in the order
  of the task list.
\<close>

theorem executeParallel_order_counterexample:
  "plan_invariant reversed_plan \<and>
   map task_id (subTasks reversed_plan) = [''frontend-1'', ''design-1''] \<and>
   executeParallel (\<lambda>task previousResults. CallReturns ''ok'' 5) (\<lambda>text. []) None reversed_plan =
     Inr [\<lparr>taskId = ''design-1'', agent = ''design'', success = True,
           agent_output = ''ok'', files = Some [], duration = 5\<rparr>,
          \<lparr>taskId = ''frontend-1'', agent = ''frontend'', success = True,
           agent_output = ''ok'', files = Some [], duration = 5\<rparr>]"
  by (simp add: plan_invariant_def reversed_plan_def earlier_group_def executeParallel_def
      notify_def Let_def run_task_def executeAgent_def)

section \<open>Theorems: merge resolver\<close>






















lemma merge_resolves_when_logging:
  assumes "recorded_conflicts (merge True ask results) \<noteq> []"
  shows "specialist_calls (merge True ask results) = 1 \<and>
         (\<forall>fs. ask (snd (collect results)) (fst (collect results)) = Resolved fs \<longrightarrow>
            merged_files (merge True ask results)
              = (let u = foldl (\<lambda>acc kv. assign acc (fst kv) (snd kv)) (fst (collect results)) fs
                 in if u = [] then [(''output.md'', combinedOutput results)] else u)) \<and>
         ((\<forall>fs. ask (snd (collect results)) (fst (collect results)) \<noteq> Resolved fs) \<longrightarrow>
            merged_files (merge True ask results)
              = (if fst (collect results) = [] then [(''output.md'', combinedOutput results)]
                 else fst (collect results)))"
  using assms
  by (cases "collect results"; cases "ask (snd (collect results)) (fst (collect results))")
     (simp_all add: merge_def Let_def)

text \<open>
  Claim C5 at the failing input: an orchestrator built with \<open>enableLogging = false\<close>
  records the conflict of \<open>three_versions\<close> and makes no call to the specialist, so
  the union keeps the last write; with logging enabled the same input makes one call and
  the resolved content overwrites the path.
\<close>

theorem merge_without_logging_skips_specialist:
  "recorded_conflicts
     (merge False (\<lambda>cs fs. Resolved [(''src/App.tsx'', ''merged'')]) three_versions) =
     [\<lparr>filename = ''src/App.tsx'',
       sources = [\<lparr>taskId = ''frontend-2'', agent = ''frontend'', success = True,
                   agent_output = ''b'', files = Some [(''src/App.tsx'', ''two'')],
                   duration = 10\<rparr>]\<rparr>] \<and>
   specialist_calls
     (merge False (\<lambda>cs fs. Resolved [(''src/App.tsx'', ''merged'')]) three_versions) = 0 \<and>
   merged_files
     (merge False (\<lambda>cs fs. Resolved [(''src/App.tsx'', ''merged'')]) three_versions) =
     [(''src/App.tsx'', ''two'')] \<and>
   specialist_calls
     (merge True (\<lambda>cs fs. Resolved [(''src/App.tsx'', ''merged'')]) three_versions) = 1 \<and>
   merged_files
     (merge True (\<lambda>cs fs. Resolved [(''src/App.tsx'', ''merged'')]) three_versions) =
     [(''src/App.tsx'', ''merged'')]"
  by code_simp

section \<open>Theorems: orchestrator\<close>

lemma persistent_stage_success: "persistent_stage env req = Some r \<Longrightarrow> o_success r"
  by (auto simp: persistent_stage_def split: option.splits)

lemma run_plan_success: "run_plan env plan = Inr r \<Longrightarrow> o_success r"
  unfolding run_plan_def Let_def
  by (auto split: option.splits sum.splits prod.splits)

lemma orchestrate_try_success: "orchestrate_try env req = Inr r \<Longrightarrow> o_success r"
  unfolding orchestrate_try_def
  by (auto split: option.splits sum.splits dest: persistent_stage_success run_plan_success)

lemma orchestrate_after_miss:
  "caches_miss env req \<Longrightarrow> notify (onProgress env) 15 = None \<Longrightarrow>
   orchestrate_try env req
     = (case decompose env (decompose_input env req) of
          Inl e \<Rightarrow> Inl e
        | Inr plan \<Rightarrow> run_plan env plan)"
  by (simp add: caches_miss_def orchestrate_try_def)

lemma run_plan_quiet:
  assumes q: "quiet (onProgress env)"
    and fv: "\<forall>fs. \<exists>g vf. finalVerifier env fs = Inr (g, vf)"
    and cs: "responseCacheSet env = None"
  shows "\<exists>r workerResults. run_plan env plan = Inr r \<and>
           executeParallel (agentRuns env) (extractFiles env) (onProgress env) plan
             = Inr workerResults \<and>
           o_projectName r = plan_projectName plan \<and>
           o_agentResults r
             = verifyChain (verifierEnv env) (extractFiles env) plan workerResults"
proof -
  from q have n: "notify (onProgress env) p = None" for p by (simp add: quiet_def)
  obtain ws where ws:
    "executeParallel (agentRuns env) (extractFiles env) (onProgress env) plan = Inr ws"
    by (simp add: executeParallel_def executeParallel_from_quiet[OF q])
  let ?v = "verifyChain (verifierEnv env) (extractFiles env) plan ws"
  let ?fs = "cleanFiles (merged_files (merge (enableLogging env) (mergeSpecialist env) ?v))"
  from fv obtain g vf where g: "finalVerifier env ?fs = Inr (g, vf)" by blast
  have "run_plan env plan =
          Inr \<lparr>o_success = True, o_projectName = plan_projectName plan, o_summary = g,
               o_files = vf, o_agentResults = ?v\<rparr>"
    by (simp add: run_plan_def n ws g cs Let_def)
  with ws show ?thesis by simp
qed

text \<open>
  Claim C6, amended. A result with \<open>success = false\<close> is always the single terminal
  object built by the outer \<open>catch\<close>: project name \<open>error\<close>, the message of what was
  thrown as its summary, no files and no agent results; every other return has
  \<open>success = true\<close>. When the caches miss and decomposition fails, the result is that
  object with the message of the decomposition error. When the caches miss and neither
  the progress callback, the decomposition, the final verifier nor the cache write
  throws, the result has \<open>success = true\<close> and carries the verified results of the
  tasks, whatever the agents, the reviewer and the merge specialist do: failures of
  tasks, of some or of all of them, do not make the request fail.
\<close>

theorem orchestrate_failure_policy:
  "(\<not> o_success (orchestrate env req) \<longrightarrow>
      (\<exists>e. orchestrate_try env req = Inl e \<and>
           orchestrate env req =
             \<lparr>o_success = False, o_projectName = ''error'', o_summary = message_of e,
              o_files = [], o_agentResults = []\<rparr>)) \<and>
   (caches_miss env req \<and> notify (onProgress env) 15 = None \<and>
    decompose env (decompose_input env req) = Inl e \<longrightarrow>
      orchestrate env req =
        \<lparr>o_success = False, o_projectName = ''error'', o_summary = message_of e,
         o_files = [], o_agentResults = []\<rparr>) \<and>
   (caches_miss env req \<and> quiet (onProgress env) \<and>
    decompose env (decompose_input env req) = Inr plan \<and>
    (\<forall>fs. \<exists>g vf. finalVerifier env fs = Inr (g, vf)) \<and> responseCacheSet env = None \<longrightarrow>
      o_success (orchestrate env req) \<and>
      o_projectName (orchestrate env req) = plan_projectName plan \<and>
      (\<exists>workerResults.
         executeParallel (agentRuns env) (extractFiles env) (onProgress env) plan
           = Inr workerResults \<and>
         o_agentResults (orchestrate env req)
           = verifyChain (verifierEnv env) (extractFiles env) plan workerResults))"
proof -
  have a: "\<not> o_success (orchestrate env req) \<longrightarrow>
      (\<exists>e. orchestrate_try env req = Inl e \<and>
           orchestrate env req =
             \<lparr>o_success = False, o_projectName = ''error'', o_summary = message_of e,
              o_files = [], o_agentResults = []\<rparr>)"
  proof (cases "orchestrate_try env req")
    case (Inl e)
    then show ?thesis by (simp add: orchestrate_def error_result_def)
  next
    case (Inr r)
    with orchestrate_try_success[OF Inr] show ?thesis by (simp add: orchestrate_def)
  qed
  have b: "caches_miss env req \<and> notify (onProgress env) 15 = None \<and>
    decompose env (decompose_input env req) = Inl e \<longrightarrow>
      orchestrate env req =
        \<lparr>o_success = False, o_projectName = ''error'', o_summary = message_of e,
         o_files = [], o_agentResults = []\<rparr>"
    by (auto simp: orchestrate_def orchestrate_after_miss error_result_def)
  have c: "o_success (orchestrate env req) \<and>
      o_projectName (orchestrate env req) = plan_projectName plan \<and>
      (\<exists>workerResults.
         executeParallel (agentRuns env) (extractFiles env) (onProgress env) plan
           = Inr workerResults \<and>
         o_agentResults (orchestrate env req)
           = verifyChain (verifierEnv env) (extractFiles env) plan workerResults)"
    if h: "caches_miss env req" "quiet (onProgress env)"
      "decompose env (decompose_input env req) = Inr plan"
      "\<forall>fs. \<exists>g vf. finalVerifier env fs = Inr (g, vf)" "responseCacheSet env = None"
  proof -
    from h(2) have n: "notify (onProgress env) 15 = None" by (simp add: quiet_def)
    from run_plan_quiet[OF h(2) h(4) h(5), of plan] obtain r ws where r:
      "run_plan env plan = Inr r"
      "executeParallel (agentRuns env) (extractFiles env) (onProgress env) plan = Inr ws"
      "o_projectName r = plan_projectName plan"
      "o_agentResults r = verifyChain (verifierEnv env) (extractFiles env) plan ws"
      by blast
    from orchestrate_after_miss[OF h(1) n] h(3) r(1)
    have o: "orchestrate env req = r" by (simp add: orchestrate_def)
    from run_plan_success[OF r(1)] o r show ?thesis by auto
  qed
  from a b c show ?thesis by blast
qed

theorem orchestrate_failure_policy_witness:
  "caches_miss demo_env ''todo app'' \<and>
   quiet (onProgress demo_env) \<and>
   decompose demo_env (decompose_input demo_env ''todo app'') = Inr demo_plan \<and>
   o_success (orchestrate demo_env ''todo app'') \<and>
   o_projectName (orchestrate demo_env ''todo app'') = ''todo'' \<and>
   caches_miss no_plan_env ''todo app'' \<and>
   decompose no_plan_env (decompose_input no_plan_env ''todo app'')
     = Inl (Error ''Failed to parse task decomposition'') \<and>
   \<not> o_success (orchestrate no_plan_env ''todo app'') \<and>
   orchestrate no_plan_env ''todo app'' =
     \<lparr>o_success = False, o_projectName = ''error'',
      o_summary = ''Failed to parse task decomposition'', o_files = [], o_agentResults = []\<rparr>"
proof -
  have m1: "caches_miss demo_env ''todo app''" by code_simp
  have q1: "quiet (onProgress demo_env)" by (simp add: demo_env_def quiet_def notify_def)
  have d1: "decompose demo_env (decompose_input demo_env ''todo app'') = Inr demo_plan"
    by (simp add: decompose_def decompose_input_def demo_env_def jsonMatch_def)
  have f1: "\<forall>fs. \<exists>g vf. finalVerifier demo_env fs = Inr (g, vf)" by (simp add: demo_env_def)
  have c1: "responseCacheSet demo_env = None" by (simp add: demo_env_def)
  have p1: "plan_projectName demo_plan = ''todo''" by (simp add: demo_plan_def)
  note t1 = orchestrate_failure_policy[of demo_env "''todo app''" NonError demo_plan]
  have s1: "o_success (orchestrate demo_env ''todo app'') \<and>
      o_projectName (orchestrate demo_env ''todo app'') = plan_projectName demo_plan"
    using t1[THEN conjunct2, THEN conjunct2, THEN mp, OF conjI[OF m1 conjI[OF q1 conjI[OF d1 conjI[OF f1 c1]]]]]
    by (elim conjE) (rule conjI)
  have m2: "caches_miss no_plan_env ''todo app''" by code_simp
  have n2: "notify (onProgress no_plan_env) 15 = None"
    by (simp add: no_plan_env_def demo_env_def notify_def)
  have d2: "decompose no_plan_env (decompose_input no_plan_env ''todo app'')
     = Inl (Error ''Failed to parse task decomposition'')"
    by (simp add: decompose_def decompose_input_def no_plan_env_def demo_env_def jsonMatch_def)
  note t2 = orchestrate_failure_policy[of no_plan_env "''todo app''"
      "Error ''Failed to parse task decomposition''" demo_plan]
  have s2: "orchestrate no_plan_env ''todo app'' =
     \<lparr>o_success = False, o_projectName = ''error'',
      o_summary = message_of (Error ''Failed to parse task decomposition''),
      o_files = [], o_agentResults = []\<rparr>"
    by (rule t2[THEN conjunct2, THEN conjunct1, THEN mp, OF conjI[OF m2 conjI[OF n2 d2]]])
  then have s2': "orchestrate no_plan_env ''todo app'' =
     \<lparr>o_success = False, o_projectName = ''error'',
      o_summary = ''Failed to parse task decomposition'', o_files = [], o_agentResults = []\<rparr>"
    by simp
  then have ns: "\<not> o_success (orchestrate no_plan_env ''todo app'')" by simp
  from m1 q1 d1 s1 p1 m2 d2 ns s2' show ?thesis by simp
qed

text \<open>
  Claim C6 as stated fails in both directions. When every task fails, and the final
  verifier returns, the result has \<open>success = true\<close> with three failed agent results.
  When decomposition succeeds and every task succeeds but the progress callback rejects
  at 90 percent, the result has \<open>success = false\<close>.
\<close>

theorem orchestrate_failure_counterexample:
  "decompose all_tasks_fail_env (decompose_input all_tasks_fail_env ''todo app'') = Inr demo_plan \<and>
   orchestrate all_tasks_fail_env ''todo app'' =
     \<lparr>o_success = True, o_projectName = ''todo'', o_summary = ''Here is your project'',
      o_files = [],
      o_agentResults =
        [\<lparr>taskId = ''design-1'', agent = ''design'', success = False,
          agent_output = ''provider unavailable'', files = None, duration = 40\<rparr>,
         \<lparr>taskId = ''frontend-1'', agent = ''frontend'', success = False,
          agent_output = ''provider unavailable'', files = None, duration = 40\<rparr>,
         \<lparr>taskId = ''frontend-2'', agent = ''frontend'', success = False,
          agent_output = ''provider unavailable'', files = None, duration = 40\<rparr>]\<rparr> \<and>
   decompose progress_rejects_env (decompose_input progress_rejects_env ''todo app'')
     = Inr demo_plan \<and>
   executeParallel (agentRuns progress_rejects_env) (extractFiles progress_rejects_env)
       (onProgress progress_rejects_env) demo_plan =
     Inr [\<lparr>taskId = ''design-1'', agent = ''design'', success = True,
           agent_output = ''done'', files = Some [], duration = 40\<rparr>,
          \<lparr>taskId = ''frontend-1'', agent = ''frontend'', success = True,
           agent_output = ''done'', files = Some [], duration = 40\<rparr>,
          \<lparr>taskId = ''frontend-2'', agent = ''frontend'', success = True,
           agent_output = ''done'', files = Some [], duration = 40\<rparr>] \<and>
   orchestrate progress_rejects_env ''todo app'' =
     \<lparr>o_success = False, o_projectName = ''error'', o_summary = ''job store unavailable'',
      o_files = [], o_agentResults = []\<rparr>"
  by code_simp

end
